theory Spec2Isabelle
  imports Main "HOL-Library.AList" "HOL-Library.Monad_Syntax"
begin

section \<open>Python values used by the daemon and the viewer\<close>

text \<open>
  The model covers \<^verbatim>\<open>src/ml-monitor-daemon.py\<close> (class \<^verbatim>\<open>MLMonitorDaemon\<close>) and the
  state-loading half of \<^verbatim>\<open>src/ml-monitor-ui.py\<close> (class \<^verbatim>\<open>MLMonitorUI\<close>).
  Everything the code obtains from outside (psutil, nvidia-smi, the HTTP transport, the
  clock, the outcome of file-system calls) is an explicit input of the model; everything it
  does to the outside (notifications sent, files written) is an explicit output.
\<close>

text \<open>Exceptions that can reach one of the \<^verbatim>\<open>except\<close> clauses of the two programs.\<close>

datatype psutil_error = NoSuchProcess | AccessDenied | ZombieProcess

datatype exn =
    ValueError | KeyError | TypeError | AttributeError
  | JSONDecodeError | OSError | RequestError | PsutilError psutil_error

subsection \<open>Strings\<close>

text \<open>The ASCII characters \<^verbatim>\<open>str.strip()\<close> removes.\<close>

definition is_space :: "char \<Rightarrow> bool" where
  "is_space c = (c \<in> set [CHR '' '', CHR 0x09, CHR 0x0A, CHR 0x0B, CHR 0x0C, CHR 0x0D,
                           CHR 0x1C, CHR 0x1D, CHR 0x1E, CHR 0x1F])"

definition py_strip :: "string \<Rightarrow> string" where
  "py_strip s = rev (dropWhile is_space (rev (dropWhile is_space s)))"

text \<open>\<^verbatim>\<open>s.split(sep)\<close> for a one-character separator: empty pieces are kept.\<close>

fun py_split :: "char \<Rightarrow> string \<Rightarrow> string list" where
  "py_split sep [] = [[]]"
| "py_split sep (c # cs) =
     (if c = sep then [] # py_split sep cs
      else (case py_split sep cs of
              [] \<Rightarrow> [[c]]
            | w # ws \<Rightarrow> (c # w) # ws))"

text \<open>\<^verbatim>\<open>sep.join(xs)\<close>.\<close>

fun py_join :: "string \<Rightarrow> string list \<Rightarrow> string" where
  "py_join sep [] = []"
| "py_join sep [x] = x"
| "py_join sep (x # y # ys) = x @ sep @ py_join sep (y # ys)"

subsection \<open>Decimal numerals: \<^verbatim>\<open>str(int)\<close> and \<^verbatim>\<open>int(str)\<close>\<close>

definition digit_char :: "nat \<Rightarrow> char" where
  "digit_char d = ''0123456789'' ! (d mod 10)"

definition digit_of :: "char \<Rightarrow> nat option" where
  "digit_of c = map_of (zip ''0123456789'' [0, 1, 2, 3, 4, 5, 6, 7, 8, 9]) c"

fun nat_digits :: "nat \<Rightarrow> string" where
  "nat_digits n =
     (if n < 10 then [digit_char n] else nat_digits (n div 10) @ [digit_char (n mod 10)])"

declare nat_digits.simps [simp del]

text \<open>A string of decimal digits only.\<close>

definition all_digits :: "string \<Rightarrow> bool" where
  "all_digits s = list_all (\<lambda>c. digit_of c \<noteq> None) s"

text \<open>\<^verbatim>\<open>str(pid)\<close> for a Python int.\<close>

definition py_str :: "int \<Rightarrow> string" where
  "py_str i = (if i < 0 then CHR ''-'' # nat_digits (nat (- i)) else nat_digits (nat i))"

text \<open>
  The digits of an \<^verbatim>\<open>int()\<close> literal after the first one: decimal digits, where a single
  underscore may stand between two digits.
\<close>

fun more_digits :: "nat \<Rightarrow> string \<Rightarrow> nat option" where
  "more_digits a [] = Some a"
| "more_digits a [c] = (case digit_of c of None \<Rightarrow> None | Some d \<Rightarrow> Some (10 * a + d))"
| "more_digits a (c # c' # cs) =
     (if c = CHR ''_''
      then (case digit_of c' of None \<Rightarrow> None | Some d \<Rightarrow> more_digits (10 * a + d) cs)
      else (case digit_of c of None \<Rightarrow> None | Some d \<Rightarrow> more_digits (10 * a + d) (c' # cs)))"

definition literal_digits :: "string \<Rightarrow> nat option" where
  "literal_digits s =
     (case s of
        [] \<Rightarrow> None
      | c # cs \<Rightarrow> (case digit_of c of None \<Rightarrow> None | Some d \<Rightarrow> more_digits d cs))"

text \<open>
  The white space \<^verbatim>\<open>int()\<close> skips at both ends of an ASCII string: tab, line feed,
  vertical tab, form feed, carriage return and space (not the separators 0x1C to 0x1F,
  which \<^verbatim>\<open>str.strip()\<close> removes).
\<close>

definition is_c_space :: "char \<Rightarrow> bool" where
  "is_c_space c = (c \<in> set [CHR 0x09, CHR 0x0A, CHR 0x0B, CHR 0x0C, CHR 0x0D, CHR '' ''])"

definition c_strip :: "string \<Rightarrow> string" where
  "c_strip s = rev (dropWhile is_c_space (rev (dropWhile is_c_space s)))"

text \<open>
  \<^verbatim>\<open>int(s)\<close> for a string of ASCII characters: white space at both ends is skipped, one
  sign is allowed, the rest is a decimal literal; anything else raises \<^verbatim>\<open>ValueError\<close>.
  (The interpreter's limit on the length of a numeral, 4300 digits by default in newer
  versions, is not modelled.)
\<close>

definition int_of_ascii :: "string \<Rightarrow> exn + int" where
  "int_of_ascii s =
     (case c_strip s of
        [] \<Rightarrow> Inl ValueError
      | c # cs \<Rightarrow>
          if c = CHR ''-'' then
            (case literal_digits cs of None \<Rightarrow> Inl ValueError | Some n \<Rightarrow> Inr (- int n))
          else if c = CHR ''+'' then
            (case literal_digits cs of None \<Rightarrow> Inl ValueError | Some n \<Rightarrow> Inr (int n))
          else
            (case literal_digits (c # cs) of None \<Rightarrow> Inl ValueError | Some n \<Rightarrow> Inr (int n)))"

text \<open>A string is a list of bytes (UTF-8); it is ASCII when every byte is below 128.\<close>

definition is_ascii :: "string \<Rightarrow> bool" where
  "is_ascii s = list_all (\<lambda>c. (of_char c :: nat) < 128) s"

subsection \<open>JSON documents\<close>

text \<open>
  What \<^verbatim>\<open>json.load\<close> returns and \<^verbatim>\<open>json.dump\<close> accepts: \<^verbatim>\<open>None\<close>, booleans, integers,
  strings, lists, and dicts with string keys (in insertion order; a dict has no key twice).
  Fractional numbers do not occur in anything the daemon writes and are left out.
\<close>

datatype json =
    JNull | JBool bool | JInt int | JStr string
  | JList "json list" | JObj "(string \<times> json) list"

text \<open>\<^verbatim>\<open>v[key]\<close> with a string key, as the load code applies it to each stored entry.\<close>

definition getitem :: "json \<Rightarrow> string \<Rightarrow> exn + json" where
  "getitem v key =
     (case v of
        JObj kvs \<Rightarrow> (case map_of kvs key of None \<Rightarrow> Inl KeyError | Some x \<Rightarrow> Inr x)
      | _ \<Rightarrow> Inl TypeError)"

subsection \<open>Naive \<^verbatim>\<open>datetime\<close> values\<close>

text \<open>
  \<^verbatim>\<open>datetime.now()\<close> and \<^verbatim>\<open>datetime.fromtimestamp(t)\<close> return naive datetimes (no time
  zone). The \<^verbatim>\<open>fold\<close> flag is not modelled: neither \<^verbatim>\<open>==\<close> nor \<^verbatim>\<open>isoformat\<close> look at it.
\<close>

record datetime =
  year :: nat
  month :: nat
  day :: nat
  hour :: nat
  minute :: nat
  second :: nat
  microsecond :: nat

definition is_leap :: "nat \<Rightarrow> bool" where
  "is_leap y = (y mod 400 = 0 \<or> (y mod 4 = 0 \<and> y mod 100 \<noteq> 0))"

definition days_in_month :: "nat \<Rightarrow> nat \<Rightarrow> nat" where
  "days_in_month y m =
     (if m = 2 then (if is_leap y then 29 else 28)
      else if m = 4 \<or> m = 6 \<or> m = 9 \<or> m = 11 then 30 else 31)"

text \<open>The range checks of the \<^verbatim>\<open>datetime\<close> constructor: every datetime object passes them.\<close>

definition valid_datetime :: "datetime \<Rightarrow> bool" where
  "valid_datetime d =
     (1 \<le> year d \<and> year d \<le> 9999 \<and> 1 \<le> month d \<and> month d \<le> 12 \<and>
      1 \<le> day d \<and> day d \<le> days_in_month (year d) (month d) \<and>
      hour d < 24 \<and> minute d < 60 \<and> second d < 60 \<and> microsecond d < 1000000)"

text \<open>\<^verbatim>\<open>'%0wd' % n\<close>.\<close>

definition zero_pad :: "nat \<Rightarrow> nat \<Rightarrow> string" where
  "zero_pad w n = replicate (w - length (nat_digits n)) CHR ''0'' @ nat_digits n"

text \<open>
  \<^verbatim>\<open>d.isoformat()\<close> of a naive datetime: \<^verbatim>\<open>YYYY-MM-DDTHH:MM:SS\<close>, followed by
  \<^verbatim>\<open>.ffffff\<close> when the microsecond is not zero.
\<close>

definition isoformat :: "datetime \<Rightarrow> string" where
  "isoformat d =
     zero_pad 4 (year d) @ ''-'' @ zero_pad 2 (month d) @ ''-'' @ zero_pad 2 (day d) @ ''T'' @
     zero_pad 2 (hour d) @ '':'' @ zero_pad 2 (minute d) @ '':'' @ zero_pad 2 (second d) @
     (if microsecond d = 0 then [] else ''.'' @ zero_pad 6 (microsecond d))"

fun plain_digits :: "nat \<Rightarrow> string \<Rightarrow> nat option" where
  "plain_digits a [] = Some a"
| "plain_digits a (c # cs) =
     (case digit_of c of None \<Rightarrow> None | Some d \<Rightarrow> plain_digits (10 * a + d) cs)"

text \<open>Read exactly \<open>w\<close> decimal digits, or one given character, from the front of a string.\<close>

definition read_digits :: "nat \<Rightarrow> string \<Rightarrow> (nat \<times> string) option" where
  "read_digits w s =
     (if length s < w then None
      else (case plain_digits 0 (take w s) of None \<Rightarrow> None | Some n \<Rightarrow> Some (n, drop w s)))"

definition read_char :: "char \<Rightarrow> string \<Rightarrow> string option" where
  "read_char c s = (case s of [] \<Rightarrow> None | x # xs \<Rightarrow> if x = c then Some xs else None)"

definition read_fraction :: "string \<Rightarrow> nat option" where
  "read_fraction s =
     (if s = [] then Some 0
      else do {
        s1 \<leftarrow> read_char CHR ''.'' s;
        (us, s2) \<leftarrow> read_digits 6 s1;
        if s2 = [] then Some us else None
      })"

definition read_datetime :: "string \<Rightarrow> datetime option" where
  "read_datetime s0 = do {
     (y, s1) \<leftarrow> read_digits 4 s0;
     s2 \<leftarrow> read_char CHR ''-'' s1;
     (mo, s3) \<leftarrow> read_digits 2 s2;
     s4 \<leftarrow> read_char CHR ''-'' s3;
     (d, s5) \<leftarrow> read_digits 2 s4;
     s6 \<leftarrow> read_char CHR ''T'' s5;
     (h, s7) \<leftarrow> read_digits 2 s6;
     s8 \<leftarrow> read_char CHR '':'' s7;
     (mi, s9) \<leftarrow> read_digits 2 s8;
     s10 \<leftarrow> read_char CHR '':'' s9;
     (sec, s11) \<leftarrow> read_digits 2 s10;
     us \<leftarrow> read_fraction s11;
     Some \<lparr>year = y, month = mo, day = d, hour = h, minute = mi, second = sec,
           microsecond = us\<rparr>
   }"

subsection \<open>What depends on the interpreter\<close>

text \<open>
  Two library functions read more strings than the ones the daemon writes, and which ones
  depends on the Python version and its Unicode tables. Their results on those further
  strings are an input of the model:
  \<^item> \<open>int_beyond_ascii\<close>: \<^verbatim>\<open>int(s)\<close> for a string with a character outside ASCII (white
    space and decimal digits of other scripts are read, too);
  \<^item> \<open>fromisoformat_beyond\<close>: \<^verbatim>\<open>datetime.fromisoformat(s)\<close> for a string that is not a
    valid timestamp in the layout \<^verbatim>\<open>isoformat\<close> writes (a blank instead of \<^verbatim>\<open>T\<close>, a date
    alone, a time without seconds, a shorter fraction, a UTC offset and more are read by
    some versions). The datetime of the model has no time zone: of a result that carries a
    UTC offset, it is the date and the time. Whether loading raises and which pids are
    loaded does not depend on the offset; what the daemon later computes from a start time
    with an offset (line 121 subtracts it from a naive one) is outside the model.

  On the strings the daemon itself writes, neither of the two is asked.
\<close>

record interpreter =
  int_beyond_ascii :: "string \<Rightarrow> exn + int"
  fromisoformat_beyond :: "string \<Rightarrow> exn + datetime"

text \<open>\<^verbatim>\<open>int(s)\<close> for a string.\<close>

definition py_int :: "interpreter \<Rightarrow> string \<Rightarrow> exn + int" where
  "py_int py s = (if is_ascii s then int_of_ascii s else int_beyond_ascii py s)"

text \<open>
  \<^verbatim>\<open>datetime.fromisoformat(s)\<close>: a valid timestamp in the layout \<^verbatim>\<open>isoformat\<close> writes is
  read as such by every version.
\<close>

definition fromisoformat :: "interpreter \<Rightarrow> string \<Rightarrow> exn + datetime" where
  "fromisoformat py s =
     (case read_datetime s of
        None \<Rightarrow> fromisoformat_beyond py s
      | Some d \<Rightarrow> if valid_datetime d then Inr d else fromisoformat_beyond py s)"

text \<open>\<^verbatim>\<open>datetime.fromisoformat(v)\<close> for a loaded JSON value: only a string is accepted.\<close>

definition fromisoformat_value :: "interpreter \<Rightarrow> json \<Rightarrow> exn + datetime" where
  "fromisoformat_value py v =
     (case v of JStr s \<Rightarrow> fromisoformat py s | _ \<Rightarrow> Inl TypeError)"

text \<open>
  Two steps in a row, each of which may raise: the second runs on the result of the first,
  unless the first raised. What a \<^verbatim>\<open>try\<close> block computes is written with it; the
  \<^verbatim>\<open>except\<close> clause is the case distinction on its result.
\<close>

definition bind_exn :: "exn + 'a \<Rightarrow> ('a \<Rightarrow> exn + 'b) \<Rightarrow> exn + 'b" where
  "bind_exn r f = (case r of Inl e \<Rightarrow> Inl e | Inr x \<Rightarrow> f x)"

section \<open>The daemon: \<^verbatim>\<open>MLMonitorDaemon\<close>\<close>

subsection \<open>Tracked entries and the process snapshot\<close>

text \<open>
  One value of \<^verbatim>\<open>self.tracked_processes\<close>. The fields that are copied unchanged from a
  loaded state file (\<^verbatim>\<open>cmdline\<close>, \<^verbatim>\<open>username\<close>, \<^verbatim>\<open>gpu_info\<close>) hold whatever JSON value
  was stored there; the two timestamps are datetime objects.
\<close>

record entry =
  cmdline :: json
  start_time :: datetime
  username :: json
  last_checked :: datetime
  gpu_info :: json

text \<open>
  \<^verbatim>\<open>self.tracked_processes\<close>: a dict from pid to entry, as the list of its items in
  insertion order. \<^verbatim>\<open>d[k] = v\<close> is \<open>AList.update k v d\<close>, \<^verbatim>\<open>del d[k]\<close> is
  \<open>AList.delete k d\<close>, \<^verbatim>\<open>k in d\<close> and \<^verbatim>\<open>d[k]\<close> are \<open>map_of d k\<close>.
\<close>

type_synonym tracked = "(int \<times> entry) list"

text \<open>
  One process yielded by \<^verbatim>\<open>psutil.process_iter([...])\<close>: its \<^verbatim>\<open>info\<close> dict (an attribute
  psutil may not read is \<^verbatim>\<open>None\<close>) and what \<^verbatim>\<open>proc.ppid()\<close> returns or raises.
  \<open>info_create_time\<close> is \<^verbatim>\<open>datetime.fromtimestamp(proc.info['create_time'])\<close>.
\<close>

record proc =
  info_pid :: int
  info_name :: "string option"
  info_username :: "string option"
  info_cmdline :: "string list option"
  info_create_time :: datetime
  ppid :: "psutil_error + int"

text \<open>What \<^verbatim>\<open>subprocess.run(['nvidia-smi', ...])\<close> did: raised, or finished with a return
  code and its standard output.\<close>

datatype smi_result = SmiRaised exn | SmiFinished int string

text \<open>What \<^verbatim>\<open>requests.post\<close> did: raised, or returned a response (status code, text).\<close>

datatype post_result = PostRaised exn | Response int string

text \<open>
  What the file-system calls of one \<^verbatim>\<open>save_state\<close> do: whether \<^verbatim>\<open>os.makedirs\<close> returns
  or raises, and the directories it created (those that were missing among the directory
  of the state file and its ancestors; when it raised, the ones created before that);
  whether \<^verbatim>\<open>open\<close> succeeds; whether the writing succeeds. These outcomes are an input
  of the model, not computed from the file system (permissions, links, a full disk and
  other processes decide them): every outcome the calls can have is among them.
\<close>

record save_io =
  makedirs_ok :: bool
  makedirs_made :: "string list"
  open_ok :: bool
  dump_ok :: bool

text \<open>
  Everything one iteration of the polling loop reads from outside: what
  \<^verbatim>\<open>stop_event.is_set()\<close> returns at its top (the signal handlers set the event), the
  snapshot, \<^verbatim>\<open>os.getpid()\<close>, what \<^verbatim>\<open>psutil.Process(pid).name()\<close> returns or raises, whether
  \<^verbatim>\<open>psutil.Process(pid)\<close> in \<^verbatim>\<open>check_process_status\<close> finds the pid or raises
  \<^verbatim>\<open>NoSuchProcess\<close>, the reply to the notification about a pid, and the outcome of the
  file-system calls of \<^verbatim>\<open>save_state\<close>. Queries made once per pid are functions of the
  pid; the two passes over the processes (finding, checking) have their own clock readings
  and nvidia-smi runs.
\<close>

record poll_env =
  stop_is_set :: bool
  process_iter :: "proc list"
  getpid :: int
  process_name :: "int \<Rightarrow> psutil_error + string"
  now_found :: "int \<Rightarrow> datetime"
  smi_found :: "int \<Rightarrow> smi_result"
  process_found :: "int \<Rightarrow> bool"
  now_checked :: "int \<Rightarrow> datetime"
  smi_checked :: "int \<Rightarrow> smi_result"
  post_reply :: "int \<Rightarrow> post_result"
  save_calls :: save_io

subsection \<open>\<^verbatim>\<open>get_gpu_info_for_process\<close>\<close>

text \<open>The loop over the lines of nvidia-smi's output; \<open>JNull\<close> is \<^verbatim>\<open>None\<close>.\<close>

fun gpu_lines :: "int \<Rightarrow> string list \<Rightarrow> json" where
  "gpu_lines pid [] = JNull"
| "gpu_lines pid (line # lines) =
     (if py_strip line = [] then gpu_lines pid lines
      else (case py_split CHR '','' (py_strip line) of
              p0 # p1 # others \<Rightarrow>
                if py_strip p0 = py_str pid
                then JObj [(''used_memory'', JStr (py_strip p1))]
                else gpu_lines pid lines
            | _ \<Rightarrow> gpu_lines pid lines))"

definition get_gpu_info_for_process :: "smi_result \<Rightarrow> int \<Rightarrow> json" where
  "get_gpu_info_for_process r pid =
     (case r of
        SmiRaised e \<Rightarrow> JNull
      | SmiFinished returncode stdout \<Rightarrow>
          if returncode \<noteq> 0 then JNull
          else gpu_lines pid (py_split CHR 0x0A (py_strip stdout)))"

subsection \<open>\<^verbatim>\<open>find_python_processes\<close>\<close>

text \<open>Line 38: the process is a Python process.\<close>

definition is_python :: "proc \<Rightarrow> bool" where
  "is_python p = (info_name p = Some ''python'' \<or> info_name p = Some ''python3'')"

text \<open>Line 51: the command line as one string.\<close>

definition cmdline_text :: "string list option \<Rightarrow> string" where
  "cmdline_text c =
     (case c of
        None \<Rightarrow> ''Unknown''
      | Some args \<Rightarrow> if args = [] then ''Unknown'' else py_join '' '' args)"

text \<open>
  Lines 55-62: the parent's name is looked up; the candidate is skipped when that name is
  \<^verbatim>\<open>python\<close> or \<^verbatim>\<open>python3\<close>. An error raised by \<^verbatim>\<open>proc.ppid()\<close>, by
  \<^verbatim>\<open>psutil.Process(...)\<close> or by \<^verbatim>\<open>parent.name()\<close> is caught there
  (\<^verbatim>\<open>ZombieProcess\<close> is a subclass of \<^verbatim>\<open>NoSuchProcess\<close>) and the candidate is kept.
\<close>

definition parent_is_python :: "poll_env \<Rightarrow> proc \<Rightarrow> bool" where
  "parent_is_python env p =
     (case ppid p of
        Inl e \<Rightarrow> False
      | Inr parent_pid \<Rightarrow>
          (case process_name env parent_pid of
             Inl e \<Rightarrow> False
           | Inr parent_name \<Rightarrow> parent_name = ''python'' \<or> parent_name = ''python3''))"

text \<open>Lines 65-71: the entry stored for a process that is tracked from now on.\<close>

definition new_entry :: "poll_env \<Rightarrow> proc \<Rightarrow> entry" where
  "new_entry env p =
     \<lparr>cmdline = JStr (cmdline_text (info_cmdline p)),
      start_time = info_create_time p,
      username = (case info_username p of None \<Rightarrow> JNull | Some u \<Rightarrow> JStr u),
      last_checked = now_found env (info_pid p),
      gpu_info = get_gpu_info_for_process (smi_found env (info_pid p)) (info_pid p)\<rparr>"

text \<open>
  The body of the \<^verbatim>\<open>for proc in psutil.process_iter(...)\<close> loop for one process: \<open>t\<close>
  is \<^verbatim>\<open>self.tracked_processes\<close> (the loop does not change it), the last argument is
  \<^verbatim>\<open>new_processes\<close> before the step and the result is \<^verbatim>\<open>new_processes\<close> after it.
\<close>

definition find_step :: "poll_env \<Rightarrow> tracked \<Rightarrow> proc \<Rightarrow> tracked \<Rightarrow> tracked" where
  "find_step env t p new_processes =
     (if is_python p then
        (case map_of t (info_pid p) of
           Some info \<Rightarrow> AList.update (info_pid p) info new_processes
         | None \<Rightarrow>
             if info_pid p = getpid env then new_processes
             else if parent_is_python env p then new_processes
             else AList.update (info_pid p) (new_entry env p) new_processes)
      else new_processes)"

text \<open>The loop over the snapshot.\<close>

fun find_loop :: "poll_env \<Rightarrow> tracked \<Rightarrow> proc list \<Rightarrow> tracked \<Rightarrow> tracked" where
  "find_loop env t [] new_processes = new_processes"
| "find_loop env t (p # ps) new_processes =
     find_loop env t ps (find_step env t p new_processes)"

definition find_python_processes :: "poll_env \<Rightarrow> tracked \<Rightarrow> tracked" where
  "find_python_processes env t = find_loop env t (process_iter env) []"

subsection \<open>\<^verbatim>\<open>send_notification\<close>\<close>

text \<open>The \<^verbatim>\<open>try\<close> block: post the message, compare the status code.\<close>

definition post_and_compare :: "post_result \<Rightarrow> exn + bool" where
  "post_and_compare r =
     (case r of
        PostRaised e \<Rightarrow> Inl e
      | Response status_code text \<Rightarrow> Inr (status_code = 200))"

text \<open>The whole method: \<^verbatim>\<open>except Exception\<close> logs and returns \<^verbatim>\<open>False\<close>.\<close>

definition send_notification :: "post_result \<Rightarrow> bool" where
  "send_notification r = (case post_and_compare r of Inl e \<Rightarrow> False | Inr ok \<Rightarrow> ok)"

subsection \<open>\<^verbatim>\<open>check_process_status\<close>\<close>

text \<open>
  One call of \<^verbatim>\<open>send_notification\<close>: the pid whose entry it reports, the entry and the end
  time its title and message are formatted from, and what the call returned.
\<close>

record notification =
  subject_pid :: int
  subject :: entry
  end_time :: datetime
  delivered :: bool

text \<open>Lines 113-116: what the loop does to the entry of a pid that still exists.\<close>

definition refresh :: "poll_env \<Rightarrow> int \<Rightarrow> entry \<Rightarrow> entry" where
  "refresh env pid info =
     info\<lparr>last_checked := now_checked env pid,
          gpu_info := get_gpu_info_for_process (smi_checked env pid) pid\<rparr>"

text \<open>
  The \<^verbatim>\<open>for pid in current_pids\<close> loop, over the items of the dict whose keys
  \<^verbatim>\<open>current_pids\<close> holds (the loop changes values only, not keys). The result is the dict,
  the notifications sent, and \<^verbatim>\<open>terminated_pids\<close>. The pids are visited in the order of
  the dict here; the Python set has an order of its own, which decides nothing but the
  order in which the notifications go out.
\<close>

fun check_each :: "poll_env \<Rightarrow> tracked \<Rightarrow> tracked \<times> notification list \<times> int list" where
  "check_each env [] = ([], [], [])"
| "check_each env ((pid, info) # rest) =
     (case check_each env rest of
        (t', sent, terminated_pids) \<Rightarrow>
          if process_found env pid then
            ((pid, refresh env pid info) # t', sent, terminated_pids)
          else
            ((pid, info) # t',
             \<lparr>subject_pid = pid, subject = info, end_time = now_checked env pid,
              delivered = send_notification (post_reply env pid)\<rparr> # sent,
             pid # terminated_pids))"

definition check_process_status :: "poll_env \<Rightarrow> tracked \<Rightarrow> tracked \<times> notification list" where
  "check_process_status env t =
     (case check_each env t of
        (t', sent, terminated_pids) \<Rightarrow> (fold AList.delete terminated_pids t', sent))"

subsection \<open>The state file\<close>

text \<open>
  What is found at a path: a file with the text of one complete JSON document (which
  \<^verbatim>\<open>json.load\<close> turns into that document, and \<^verbatim>\<open>json.dump\<close> of that document writes),
  a file with text that is not a complete JSON document (empty, cut short, or otherwise
  malformed: \<^verbatim>\<open>json.load\<close> raises), a file that cannot be opened for reading, or a
  directory.
\<close>

datatype file_content = JsonText json | Incomplete | Unreadable | Directory

text \<open>The files of the machine by path; \<open>None\<close> where \<^verbatim>\<open>os.path.exists\<close> is false.\<close>

type_synonym files = "string \<Rightarrow> file_content option"

subsection \<open>\<^verbatim>\<open>save_state\<close>\<close>

definition serialize_entry :: "entry \<Rightarrow> json" where
  "serialize_entry info =
     JObj [(''cmdline'', cmdline info),
           (''start_time'', JStr (isoformat (start_time info))),
           (''username'', username info),
           (''last_checked'', JStr (isoformat (last_checked info))),
           (''gpu_info'', gpu_info info)]"

text \<open>Lines 166-174: the dict \<^verbatim>\<open>serializable_state\<close>, filled item by item.\<close>

definition serializable_state :: "tracked \<Rightarrow> (string \<times> json) list" where
  "serializable_state t =
     foldl (\<lambda>acc (pid, info). AList.update (py_str pid) (serialize_entry info) acc) [] t"

text \<open>
  Lines 176-181. \<^verbatim>\<open>open(state_file, 'w')\<close> opens the destination itself and truncates it;
  \<^verbatim>\<open>json.dump\<close> then writes into it, and leaving the \<^verbatim>\<open>with\<close> block closes it. The
  function lists the contents of the file system after each of these steps that changes
  it, in order: what another process can find there while and after the call runs. An
  exception of \<^verbatim>\<open>open\<close> or of the writing is caught and logged.
\<close>

definition save_state_writes :: "save_io \<Rightarrow> tracked \<Rightarrow> string \<Rightarrow> files \<Rightarrow> files list" where
  "save_state_writes io t state_file fs =
     (if \<not> open_ok io then []
      else if \<not> dump_ok io then [fs(state_file \<mapsto> Incomplete)]
      else [fs(state_file \<mapsto> Incomplete),
            fs(state_file \<mapsto> JsonText (JObj (serializable_state t)))])"

text \<open>Line 163: the file system after \<^verbatim>\<open>os.makedirs\<close>, with the directories it created.\<close>

definition after_makedirs :: "save_io \<Rightarrow> files \<Rightarrow> files" where
  "after_makedirs io fs = fold (\<lambda>dir fs'. fs'(dir \<mapsto> Directory)) (makedirs_made io) fs"

text \<open>
  The whole method: the exception that leaves it, if any, and the file system it leaves.
  \<^verbatim>\<open>os.makedirs\<close> stands before the \<^verbatim>\<open>try\<close>: when it raises, the exception leaves
  \<^verbatim>\<open>save_state\<close> and the file is not opened.
\<close>

definition save_state :: "save_io \<Rightarrow> tracked \<Rightarrow> string \<Rightarrow> files \<Rightarrow> exn option \<times> files" where
  "save_state io t state_file fs =
     (let fs1 = after_makedirs io fs in
      if \<not> makedirs_ok io then (Some OSError, fs1)
      else (None, last (fs1 # save_state_writes io t state_file fs1)))"

subsection \<open>\<^verbatim>\<open>load_state\<close>\<close>

text \<open>\<^verbatim>\<open>open(state_file, 'r')\<close> and \<^verbatim>\<open>json.load(f)\<close>.\<close>

definition json_load :: "file_content \<Rightarrow> exn + json" where
  "json_load f =
     (case f of
        JsonText doc \<Rightarrow> Inr doc
      | Incomplete \<Rightarrow> Inl JSONDecodeError
      | Unreadable \<Rightarrow> Inl OSError
      | Directory \<Rightarrow> Inl OSError)"

text \<open>\<^verbatim>\<open>serialized_state.items()\<close>: only a dict has the method.\<close>

definition items :: "json \<Rightarrow> exn + (string \<times> json) list" where
  "items v = (case v of JObj kvs \<Rightarrow> Inr kvs | _ \<Rightarrow> Inl AttributeError)"

text \<open>
  The body of the \<^verbatim>\<open>for pid_str, info in serialized_state.items()\<close> loop up to the
  assignment: the pid and the entry to store, or the exception raised on the way.
\<close>

definition read_entry :: "interpreter \<Rightarrow> string \<Rightarrow> json \<Rightarrow> exn + (int \<times> entry)" where
  "read_entry py pid_str info =
     bind_exn (py_int py pid_str) (\<lambda>pid.
     bind_exn (getitem info ''cmdline'') (\<lambda>c.
     bind_exn (getitem info ''start_time'') (\<lambda>st_text.
     bind_exn (fromisoformat_value py st_text) (\<lambda>st.
     bind_exn (getitem info ''username'') (\<lambda>u.
     bind_exn (getitem info ''last_checked'') (\<lambda>lc_text.
     bind_exn (fromisoformat_value py lc_text) (\<lambda>lc.
     bind_exn (getitem info ''gpu_info'') (\<lambda>g.
     Inr (pid, \<lparr>cmdline = c, start_time = st, username = u, last_checked = lc,
                gpu_info = g\<rparr>)))))))))"

text \<open>
  The loop itself, storing into the dict \<open>t\<close>. It stops at the first exception; what was
  stored before stays in the dict.
\<close>

fun load_entries ::
  "interpreter \<Rightarrow> (string \<times> json) list \<Rightarrow> tracked \<Rightarrow> exn option \<times> tracked" where
  "load_entries py [] t = (None, t)"
| "load_entries py ((pid_str, info) # rest) t =
     (case read_entry py pid_str info of
        Inl e \<Rightarrow> (Some e, t)
      | Inr (pid, ent) \<Rightarrow> load_entries py rest (AList.update pid ent t))"

text \<open>
  The \<^verbatim>\<open>try\<close> block shared by the daemon's \<^verbatim>\<open>load_state\<close> and the viewer's
  \<^verbatim>\<open>load_daemon_state\<close>: open and parse the file, then run the loop into the dict \<open>t\<close>.
  The result is the exception that ended the block, if any, and the dict at that point.
\<close>

definition try_load :: "interpreter \<Rightarrow> file_content \<Rightarrow> tracked \<Rightarrow> exn option \<times> tracked" where
  "try_load py f t =
     (case bind_exn (json_load f) items of
        Inl e \<Rightarrow> (Some e, t)
      | Inr kvs \<Rightarrow> load_entries py kvs t)"

text \<open>
  The daemon's \<^verbatim>\<open>load_state\<close>: \<open>t\<close> is \<^verbatim>\<open>self.tracked_processes\<close> before the call, the
  result is \<^verbatim>\<open>self.tracked_processes\<close> after it. The method returns nothing and raises
  nothing: a missing file ends it at once, every exception is caught and logged.
\<close>

definition load_state :: "interpreter \<Rightarrow> files \<Rightarrow> string \<Rightarrow> tracked \<Rightarrow> tracked" where
  "load_state py fs state_file t =
     (case fs state_file of
        None \<Rightarrow> t
      | Some f \<Rightarrow> snd (try_load py f t))"

subsection \<open>\<^verbatim>\<open>run\<close>: the polling loop\<close>

text \<open>
  The daemon object and what it has done to the outside so far: the calls of
  \<^verbatim>\<open>send_notification\<close>, in order, and the file system.
\<close>

record daemon =
  tracked_processes :: tracked
  outbox :: "notification list"
  disk :: files

text \<open>\<^verbatim>\<open>__init__\<close>: nothing is tracked.\<close>

definition new_daemon :: "files \<Rightarrow> daemon" where
  "new_daemon fs = \<lparr>tracked_processes = [], outbox = [], disk = fs\<rparr>"

text \<open>
  Lines 221-229, one iteration of the \<^verbatim>\<open>while\<close> loop up to the sleep: the exception that
  leaves the iteration, if any, and the daemon after it.
\<close>

definition poll_cycle :: "string \<Rightarrow> poll_env \<Rightarrow> daemon \<Rightarrow> exn option \<times> daemon" where
  "poll_cycle state_file env d =
     (let new_processes = find_python_processes env (tracked_processes d) in
      case check_process_status env new_processes of
        (t', sent) \<Rightarrow>
          (case save_state (save_calls env) t' state_file (disk d) of
             (r, fs) \<Rightarrow>
               (r, d\<lparr>tracked_processes := t', outbox := outbox d @ sent, disk := fs\<rparr>)))"

text \<open>
  How the \<^verbatim>\<open>while not self.stop_event.is_set()\<close> loop is left: not at all within the
  iterations looked at, by the stop event, or by an exception (caught by the
  \<^verbatim>\<open>except Exception\<close> of \<^verbatim>\<open>run\<close>, which stands outside the loop).
\<close>

datatype loop_end = StillPolling | StopRequested | LoopError exn

fun polling_loop :: "string \<Rightarrow> poll_env list \<Rightarrow> daemon \<Rightarrow> loop_end \<times> daemon" where
  "polling_loop state_file [] d = (StillPolling, d)"
| "polling_loop state_file (env # envs) d =
     (if stop_is_set env then (StopRequested, d)
      else (case poll_cycle state_file env d of
              (Some e, d') \<Rightarrow> (LoopError e, d')
            | (None, d') \<Rightarrow> polling_loop state_file envs d'))"

text \<open>The daemon at the start of the loop and after each iteration that was run.\<close>

fun poll_history :: "string \<Rightarrow> poll_env list \<Rightarrow> daemon \<Rightarrow> daemon list" where
  "poll_history state_file [] d = [d]"
| "poll_history state_file (env # envs) d =
     d # (if stop_is_set env then []
          else (case poll_cycle state_file env d of
                  (Some e, d') \<Rightarrow> [d']
                | (None, d') \<Rightarrow> poll_history state_file envs d'))"

text \<open>
  \<^verbatim>\<open>run\<close>: load the state, poll, and once the loop is left save again (\<^verbatim>\<open>finally\<close>); an
  exception of that last save leaves \<^verbatim>\<open>run\<close>.
\<close>

definition run ::
  "interpreter \<Rightarrow> string \<Rightarrow> poll_env list \<Rightarrow> save_io \<Rightarrow> daemon \<Rightarrow>
     exn option \<times> loop_end \<times> daemon" where
  "run py state_file envs last_save d0 =
     (let d1 = d0\<lparr>tracked_processes :=
                   load_state py (disk d0) state_file (tracked_processes d0)\<rparr> in
      case polling_loop state_file envs d1 of
        (how, d2) \<Rightarrow>
          if how = StillPolling then (None, how, d2)
          else (case save_state last_save (tracked_processes d2) state_file (disk d2) of
                  (r, fs) \<Rightarrow> (r, how, d2\<lparr>disk := fs\<rparr>)))"

section \<open>The viewer: \<^verbatim>\<open>MLMonitorUI\<close>\<close>

text \<open>
  \<^verbatim>\<open>load_daemon_state\<close>: the same loop as the daemon's, into a fresh dict; a missing file
  and every exception give the empty dict.
\<close>

definition load_daemon_state :: "interpreter \<Rightarrow> files \<Rightarrow> string \<Rightarrow> tracked" where
  "load_daemon_state py fs state_file =
     (case fs state_file of
        None \<Rightarrow> []
      | Some f \<Rightarrow>
          (case try_load py f [] of
             (Some e, state) \<Rightarrow> []
           | (None, state) \<Rightarrow> state))"

text \<open>
  The live figures \<^verbatim>\<open>get_process_stats\<close> collects for a running process. Python floats
  are not computed with here; their type is left open.
\<close>

typedecl pyfloat

record live =
  cpu_percent :: pyfloat
  memory_percent :: pyfloat
  status :: string
  gpu_memory :: "string option"
  gpu_util :: "string option"

datatype stats = Running live | Terminated

text \<open>
  \<^verbatim>\<open>get_process_stats\<close>, given what psutil answers for the pid: \<^verbatim>\<open>NoSuchProcess\<close> (and
  its subclass \<^verbatim>\<open>ZombieProcess\<close>) is caught, any other psutil error leaves the method.
\<close>

definition get_process_stats :: "psutil_error + live \<Rightarrow> exn + stats" where
  "get_process_stats answer =
     (case answer of
        Inr l \<Rightarrow> Inr (Running l)
      | Inl NoSuchProcess \<Rightarrow> Inr Terminated
      | Inl ZombieProcess \<Rightarrow> Inr Terminated
      | Inl AccessDenied \<Rightarrow> Inl (PsutilError AccessDenied))"

definition is_running :: "stats \<Rightarrow> bool" where
  "is_running s = (case s of Running l \<Rightarrow> True | Terminated \<Rightarrow> False)"

text \<open>
  The viewer object, as far as \<^verbatim>\<open>update_process_list\<close> uses it. An entry of its
  \<^verbatim>\<open>tracked_processes\<close> is a loaded entry together with the stats merged into it
  (\<open>None\<close> before \<^verbatim>\<open>update(stats)\<close>).
\<close>

record ui =
  ui_state_file :: string
  ui_tracked_processes :: "(int \<times> entry \<times> stats option) list"
  show_all :: bool

text \<open>The \<^verbatim>\<open>for pid in list(self.tracked_processes.keys())\<close> loop.\<close>

fun merge_stats ::
  "(int \<Rightarrow> psutil_error + live) \<Rightarrow> bool \<Rightarrow> (int \<times> entry \<times> stats option) list \<Rightarrow>
     exn option \<times> (int \<times> entry \<times> stats option) list" where
  "merge_stats psutil_answer keep_all [] = (None, [])"
| "merge_stats psutil_answer keep_all ((pid, info, old) # rest) =
     (case get_process_stats (psutil_answer pid) of
        Inl e \<Rightarrow> (Some e, (pid, info, old) # rest)
      | Inr s \<Rightarrow>
          (case merge_stats psutil_answer keep_all rest of
             (r, rest') \<Rightarrow>
               if \<not> is_running s \<and> \<not> keep_all then (r, rest')
               else (r, (pid, info, Some s) # rest')))"

text \<open>
  \<^verbatim>\<open>update_process_list\<close>: the exception that leaves it, if any, and the viewer after it.
\<close>

definition update_process_list ::
  "interpreter \<Rightarrow> files \<Rightarrow> (int \<Rightarrow> psutil_error + live) \<Rightarrow> ui \<Rightarrow> exn option \<times> ui" where
  "update_process_list py fs psutil_answer v =
     (let daemon_state = load_daemon_state py fs (ui_state_file v) in
      case merge_stats psutil_answer (show_all v)
             (map (\<lambda>(pid, info). (pid, info, None)) daemon_state) of
        (r, t) \<Rightarrow> (r, v\<lparr>ui_tracked_processes := t\<rparr>))"

section \<open>Well-formed tracked sets and sample data\<close>

text \<open>
  What holds of every \<^verbatim>\<open>tracked_processes\<close> dict by construction: no pid is a key twice,
  and the timestamps are datetime objects, so they passed the constructor's range checks.
\<close>

definition timestamps_valid :: "tracked \<Rightarrow> bool" where
  "timestamps_valid t =
     list_all (\<lambda>(pid, info). valid_datetime (start_time info) \<and>
                              valid_datetime (last_checked info)) t"

definition well_formed :: "tracked \<Rightarrow> bool" where
  "well_formed t = (distinct (map fst t) \<and> timestamps_valid t)"

text \<open>Sample values, used where a statement is instantiated.\<close>

definition sample_start :: datetime where
  "sample_start =
     \<lparr>year = 2024, month = 2, day = 29, hour = 3, minute = 4, second = 5, microsecond = 0\<rparr>"

definition sample_later :: datetime where
  "sample_later =
     \<lparr>year = 2024, month = 2, day = 29, hour = 3, minute = 4, second = 10,
      microsecond = 250\<rparr>"

definition sample_entry :: entry where
  "sample_entry =
     \<lparr>cmdline = JStr ''python train.py'', start_time = sample_start, username = JStr ''al'',
      last_checked = sample_later, gpu_info = JObj [(''used_memory'', JStr ''300 MiB'')]\<rparr>"

text \<open>
  A save in which every call succeeds and \<^verbatim>\<open>os.makedirs\<close> finds the directory in place;
  one in which \<^verbatim>\<open>os.makedirs\<close> raises before it has made anything; one in which it makes
  the state directory anew. A file system in which the state directory is missing, and one
  that has it (and no state file yet). An interpreter for the samples: none of them holds a
  string about which the two functions of the interpreter are asked.
\<close>

definition all_ok :: save_io where
  "all_ok = \<lparr>makedirs_ok = True, makedirs_made = [], open_ok = True, dump_ok = True\<rparr>"

definition makedirs_refused :: save_io where
  "makedirs_refused =
     \<lparr>makedirs_ok = False, makedirs_made = [], open_ok = True, dump_ok = True\<rparr>"

definition makedirs_remade :: save_io where
  "makedirs_remade =
     \<lparr>makedirs_ok = True, makedirs_made = [''/var/lib/ml-monitor''], open_ok = True,
      dump_ok = True\<rparr>"

definition disk_without_directory :: files where
  "disk_without_directory =
     [''/'' \<mapsto> Directory, ''/var'' \<mapsto> Directory, ''/var/lib'' \<mapsto> Directory]"

definition sample_disk :: files where
  "sample_disk =
     [''/'' \<mapsto> Directory, ''/var'' \<mapsto> Directory, ''/var/lib'' \<mapsto> Directory,
      ''/var/lib/ml-monitor'' \<mapsto> Directory]"

definition strict_python :: interpreter where
  "strict_python =
     \<lparr>int_beyond_ascii = (\<lambda>s. Inl ValueError), fromisoformat_beyond = (\<lambda>s. Inl ValueError)\<rparr>"

text \<open>
  A Python process of user \<^verbatim>\<open>al\<close> with the given pid, command line and answer of
  \<^verbatim>\<open>proc.ppid()\<close>; and a poll in which the snapshot is \<open>procs\<close> and \<open>alive\<close> tells which
  pids \<^verbatim>\<open>psutil.Process(pid)\<close> still finds: process 100 is named \<^verbatim>\<open>python\<close>, process 2
  \<^verbatim>\<open>bash\<close>, no other process can be inspected, the daemon is process 1, nvidia-smi is not
  installed, the notification server answers 200, and the state file can be written.
\<close>

definition python_proc :: "int \<Rightarrow> string list option \<Rightarrow> psutil_error + int \<Rightarrow> proc" where
  "python_proc pid args parent =
     \<lparr>info_pid = pid, info_name = Some ''python'', info_username = Some ''al'',
      info_cmdline = args, info_create_time = sample_start, ppid = parent\<rparr>"

definition sample_poll :: "proc list \<Rightarrow> (int \<Rightarrow> bool) \<Rightarrow> poll_env" where
  "sample_poll procs alive =
     \<lparr>stop_is_set = False, process_iter = procs, getpid = 1,
      process_name = (\<lambda>pid. if pid = 100 then Inr ''python''
                             else if pid = 2 then Inr ''bash'' else Inl NoSuchProcess),
      now_found = (\<lambda>pid. sample_later), smi_found = (\<lambda>pid. SmiRaised OSError),
      process_found = alive,
      now_checked = (\<lambda>pid. sample_later), smi_checked = (\<lambda>pid. SmiRaised OSError),
      post_reply = (\<lambda>pid. Response 200 ''ok''), save_calls = all_ok\<rparr>"

section \<open>Decimal numerals are read back as written\<close>

lemma digit_of_digit_char: "d < 10 \<Longrightarrow> digit_of (digit_char d) = Some d"
proof -
  assume "d < 10"
  then have "d \<in> {0, 1, 2, 3, 4, 5, 6, 7, 8, 9}" by auto
  then show ?thesis by (auto simp: digit_of_def digit_char_def)
qed

lemma digit_of_Some_facts:
  assumes "digit_of c = Some d"
  shows "c \<noteq> CHR ''_''" and "c \<noteq> CHR ''-''" and "c \<noteq> CHR ''+''"
    and "\<not> is_c_space c" and "(of_char c :: nat) < 128"
  using assms by (auto simp: digit_of_def is_c_space_def split: if_splits)

lemma nat_digits_nonempty: "nat_digits n \<noteq> []"
  by (subst nat_digits.simps) simp

lemma all_digits_nat_digits: "all_digits (nat_digits n)"
proof (induction n rule: nat_digits.induct)
  case (1 n)
  show ?case
  proof (cases "n < 10")
    case True
    then show ?thesis
      by (subst nat_digits.simps) (simp add: all_digits_def digit_of_digit_char)
  next
    case False
    with 1 show ?thesis
      by (subst nat_digits.simps) (simp add: all_digits_def digit_of_digit_char)
  qed
qed

lemma plain_digits_append:
  "plain_digits a (xs @ ys) =
     (case plain_digits a xs of None \<Rightarrow> None | Some b \<Rightarrow> plain_digits b ys)"
  by (induction xs arbitrary: a) (auto split: option.splits)

lemma plain_digits_nat_digits:
  "plain_digits a (nat_digits n) = Some (a * 10 ^ length (nat_digits n) + n)"
proof (induction n arbitrary: a rule: nat_digits.induct)
  case (1 n)
  show ?case
  proof (cases "n < 10")
    case True
    then show ?thesis
      by (subst (1 2) nat_digits.simps) (simp add: digit_of_digit_char)
  next
    case False
    have "plain_digits a (nat_digits n) =
            plain_digits a (nat_digits (n div 10) @ [digit_char (n mod 10)])"
      using False by (subst nat_digits.simps) simp
    also have "\<dots> = Some (10 * (a * 10 ^ length (nat_digits (n div 10)) + n div 10) + n mod 10)"
      using False by (simp add: plain_digits_append 1 digit_of_digit_char)
    also have "\<dots> = Some (a * 10 ^ length (nat_digits n) + n)"
    proof -
      have "length (nat_digits n) = Suc (length (nat_digits (n div 10)))"
        using False by (subst nat_digits.simps) simp
      then show ?thesis by (simp add: algebra_simps)
    qed
    finally show ?thesis .
  qed
qed

lemma plain_digits_zeros: "plain_digits a (replicate k CHR ''0'') = Some (a * 10 ^ k)"
  by (induction k arbitrary: a) (auto simp: digit_of_def)

lemma plain_digits_zero_pad: "plain_digits 0 (zero_pad w n) = Some n"
  by (simp add: zero_pad_def plain_digits_append plain_digits_zeros plain_digits_nat_digits)

lemma length_nat_digits: "0 < w \<Longrightarrow> n < 10 ^ w \<Longrightarrow> length (nat_digits n) \<le> w"
proof (induction n arbitrary: w rule: nat_digits.induct)
  case (1 n)
  show ?case
  proof (cases "n < 10")
    case True
    with 1(2) show ?thesis by (subst nat_digits.simps) simp
  next
    case False
    obtain v where w: "w = Suc v" using 1(2) by (cases w) auto
    have "v \<noteq> 0" using False 1(3) w by (cases v) auto
    moreover have "n div 10 < 10 ^ v" using 1(3) w by (simp add: less_mult_imp_div_less mult.commute)
    ultimately have "length (nat_digits (n div 10)) \<le> v" using 1(1)[of v] False by simp
    then show ?thesis using False w by (subst nat_digits.simps) simp
  qed
qed

lemma length_zero_pad: "0 < w \<Longrightarrow> n < 10 ^ w \<Longrightarrow> length (zero_pad w n) = w"
  using length_nat_digits[of w n] by (simp add: zero_pad_def)

lemma read_digits_zero_pad:
  "0 < w \<Longrightarrow> n < 10 ^ w \<Longrightarrow> read_digits w (zero_pad w n @ rest) = Some (n, rest)"
  by (simp add: read_digits_def length_zero_pad plain_digits_zero_pad)

lemma read_char_Cons: "read_char c (c # rest) = Some rest"
  by (simp add: read_char_def)

lemma more_digits_plain: "all_digits s \<Longrightarrow> more_digits a s = plain_digits a s"
proof (induction a s rule: more_digits.induct)
  case (3 a c c' cs)
  then show ?case
    by (auto simp: all_digits_def digit_of_Some_facts split: option.splits)
qed (auto simp: all_digits_def split: option.splits)

lemma literal_digits_nat_digits: "literal_digits (nat_digits n) = Some n"
proof -
  obtain c cs where s: "nat_digits n = c # cs"
    using nat_digits_nonempty[of n] by (cases "nat_digits n") auto
  have ad: "all_digits (c # cs)" using all_digits_nat_digits[of n] s by simp
  then obtain d where d: "digit_of c = Some d" and cs: "all_digits cs"
    by (auto simp: all_digits_def)
  have "plain_digits 0 (c # cs) = Some n"
    using plain_digits_nat_digits[of 0 n] s by simp
  then have "plain_digits d cs = Some n" using d by simp
  then show ?thesis using s d cs by (simp add: literal_digits_def more_digits_plain)
qed

lemma c_strip_id:
  "s \<noteq> [] \<Longrightarrow> \<not> is_c_space (hd s) \<Longrightarrow> \<not> is_c_space (last s) \<Longrightarrow> c_strip s = s"
proof -
  assume a: "s \<noteq> []" "\<not> is_c_space (hd s)" "\<not> is_c_space (last s)"
  then have "dropWhile is_c_space s = s" by (cases s) auto
  moreover have "dropWhile is_c_space (rev s) = rev s"
    using a by (cases "rev s") (auto simp: last_rev hd_rev)
  ultimately show ?thesis by (simp add: c_strip_def)
qed

lemma nat_digits_last: "\<exists>d. digit_of (last (nat_digits n)) = Some d"
  using all_digits_nat_digits[of n] nat_digits_nonempty[of n]
  by (auto simp: all_digits_def list_all_iff)

lemma nat_digits_hd: "\<exists>d. digit_of (hd (nat_digits n)) = Some d"
  using all_digits_nat_digits[of n] nat_digits_nonempty[of n]
  by (cases "nat_digits n") (auto simp: all_digits_def)

lemma c_strip_py_str: "c_strip (py_str i) = py_str i"
proof (rule c_strip_id)
  show "py_str i \<noteq> []" by (simp add: py_str_def nat_digits_nonempty)
  show "\<not> is_c_space (hd (py_str i))"
  proof (cases "i < 0")
    case True
    then show ?thesis by (simp add: py_str_def is_c_space_def)
  next
    case False
    then show ?thesis
      using nat_digits_hd[of "nat i"] by (auto simp: py_str_def digit_of_Some_facts)
  qed
  show "\<not> is_c_space (last (py_str i))"
    using nat_digits_last[of "nat i"] nat_digits_last[of "nat (- i)"]
    by (auto simp: py_str_def nat_digits_nonempty digit_of_Some_facts)
qed

lemma is_ascii_nat_digits: "is_ascii (nat_digits n)"
  using all_digits_nat_digits[of n]
  by (auto simp: is_ascii_def all_digits_def list_all_iff digit_of_Some_facts)

lemma is_ascii_py_str: "is_ascii (py_str i)"
  using is_ascii_nat_digits by (simp add: py_str_def is_ascii_def)

lemma int_of_ascii_py_str: "int_of_ascii (py_str i) = Inr i"
proof (cases "i < 0")
  case True
  then show ?thesis
    by (simp add: int_of_ascii_def c_strip_py_str) (simp add: py_str_def literal_digits_nat_digits)
next
  case False
  obtain c cs where s: "nat_digits (nat i) = c # cs"
    using nat_digits_nonempty[of "nat i"] by (cases "nat_digits (nat i)") auto
  obtain d where "digit_of c = Some d" using nat_digits_hd[of "nat i"] s by auto
  then have "c \<noteq> CHR ''-''" "c \<noteq> CHR ''+''" by (auto simp: digit_of_Some_facts)
  moreover have "literal_digits (c # cs) = Some (nat i)"
    using literal_digits_nat_digits[of "nat i"] s by simp
  ultimately show ?thesis using False s
    by (simp add: int_of_ascii_def c_strip_py_str) (simp add: py_str_def)
qed

lemma py_int_py_str: "py_int py (py_str i) = Inr i"
  by (simp add: py_int_def is_ascii_py_str int_of_ascii_py_str)

section \<open>Timestamps are read back as written\<close>

lemma days_in_month_le: "days_in_month y m \<le> 31"
  by (simp add: days_in_month_def)

lemma read_fraction_empty: "read_fraction [] = Some 0"
  by (simp add: read_fraction_def)

lemma read_fraction_written:
  "us < 1000000 \<Longrightarrow> read_fraction (CHR ''.'' # zero_pad 6 us) = Some us"
  using read_digits_zero_pad[of 6 us "[]"]
  by (simp add: read_fraction_def read_char_Cons)

lemma read_datetime_isoformat:
  assumes "valid_datetime d"
  shows "read_datetime (isoformat d) = Some d"
proof -
  have y: "year d < 10 ^ 4" and mo: "month d < 10 ^ 2" and h: "hour d < 10 ^ 2"
    and mi: "minute d < 10 ^ 2" and sec: "second d < 10 ^ 2" and us: "microsecond d < 1000000"
    using assms by (simp_all add: valid_datetime_def)
  have dd: "day d < 10 ^ 2"
    using assms days_in_month_le[of "year d" "month d"] by (simp add: valid_datetime_def)
  note rd = read_digits_zero_pad[OF _ y] read_digits_zero_pad[OF _ mo]
        read_digits_zero_pad[OF _ dd] read_digits_zero_pad[OF _ h]
        read_digits_zero_pad[OF _ mi] read_digits_zero_pad[OF _ sec]
  show ?thesis
  proof (cases "microsecond d = 0")
    case True
    then show ?thesis
      unfolding isoformat_def read_datetime_def
      using read_digits_zero_pad[OF _ sec, of "[]"]
      by (simp add: rd read_char_Cons read_fraction_empty)
  next
    case False
    then show ?thesis
      unfolding isoformat_def read_datetime_def
      by (simp add: rd read_char_Cons read_fraction_written[OF us])
  qed
qed

lemma fromisoformat_isoformat:
  "valid_datetime d \<Longrightarrow> fromisoformat py (isoformat d) = Inr d"
  by (simp add: fromisoformat_def read_datetime_isoformat)

section \<open>Saving and loading the state file\<close>

lemma update_fresh: "k \<notin> fst ` set al \<Longrightarrow> AList.update k v al = al @ [(k, v)]"
  by (induction al) auto

lemma py_str_inject: "py_str i = py_str j \<Longrightarrow> i = j"
proof -
  assume "py_str i = py_str j"
  then have "int_of_ascii (py_str i) = int_of_ascii (py_str j)" by (rule arg_cong)
  then show "i = j" by (simp only: int_of_ascii_py_str sum.inject)
qed

lemma serializable_state_from:
  "distinct (map fst acc @ map (\<lambda>(pid, info). py_str pid) t) \<Longrightarrow>
   foldl (\<lambda>acc (pid, info). AList.update (py_str pid) (serialize_entry info) acc) acc t =
     acc @ map (\<lambda>(pid, info). (py_str pid, serialize_entry info)) t"
proof (induction t arbitrary: acc)
  case Nil
  then show ?case by simp
next
  case (Cons x t)
  obtain pid info where x: "x = (pid, info)" by (cases x)
  have fresh: "py_str pid \<notin> fst ` set acc" using Cons.prems x by auto
  have "distinct (map fst (acc @ [(py_str pid, serialize_entry info)]) @
                  map (\<lambda>(pid, info). py_str pid) t)"
    using Cons.prems x by auto
  from Cons.IH[OF this] show ?case using x fresh by (simp add: update_fresh)
qed

lemma serializable_state_map:
  assumes "distinct (map fst t)"
  shows "serializable_state t = map (\<lambda>(pid, info). (py_str pid, serialize_entry info)) t"
proof -
  have eq: "map (\<lambda>(pid, info). py_str pid) t = map py_str (map fst t)"
    by (induction t) auto
  have "distinct (map py_str (map fst t))"
    using assms by (simp add: distinct_map inj_on_def py_str_inject)
  then have "distinct (map fst [] @ map (\<lambda>(pid, info). py_str pid) t)"
    by (simp only: eq list.map append_Nil)
  from serializable_state_from[OF this] show ?thesis
    by (simp only: serializable_state_def append_Nil)
qed

lemma read_entry_serialized:
  "valid_datetime (start_time info) \<Longrightarrow> valid_datetime (last_checked info) \<Longrightarrow>
   read_entry py (py_str pid) (serialize_entry info) = Inr (pid, info)"
  by (simp add: read_entry_def serialize_entry_def bind_exn_def py_int_py_str getitem_def
      fromisoformat_value_def fromisoformat_isoformat)

lemma load_entries_serialized:
  "distinct (map fst (acc @ t)) \<Longrightarrow> timestamps_valid t \<Longrightarrow>
   load_entries py (map (\<lambda>(pid, info). (py_str pid, serialize_entry info)) t) acc =
     (None, acc @ t)"
proof (induction t arbitrary: acc)
  case Nil
  then show ?case by simp
next
  case (Cons x t)
  obtain pid info where x: "x = (pid, info)" by (cases x)
  have v: "valid_datetime (start_time info)" "valid_datetime (last_checked info)"
    and rest: "timestamps_valid t"
    using Cons.prems(2) x by (simp_all add: timestamps_valid_def)
  have fresh: "pid \<notin> fst ` set acc" using Cons.prems(1) x by auto
  have "distinct (map fst ((acc @ [(pid, info)]) @ t))" using Cons.prems(1) x by simp
  from Cons.IH[OF this rest] show ?case
    using x fresh by (simp add: read_entry_serialized[OF v] update_fresh)
qed

lemma save_state_all_ok:
  "makedirs_ok io \<Longrightarrow> open_ok io \<Longrightarrow> dump_ok io \<Longrightarrow>
   save_state io t p fs =
     (None, (after_makedirs io fs)(p \<mapsto> JsonText (JObj (serializable_state t))))"
  by (simp add: save_state_def save_state_writes_def)

lemma try_load_saved:
  "well_formed t \<Longrightarrow> try_load py (JsonText (JObj (serializable_state t))) [] = (None, t)"
  using load_entries_serialized[of "[]" t py]
  by (simp add: well_formed_def try_load_def json_load_def items_def bind_exn_def
      serializable_state_map)

text \<open>
  C3 (round-trip persistence). For every tracked set (a dict: no pid twice; its timestamps
  datetime objects), a save whose file-system calls succeed returns normally, and loading
  the file it leaves gives back the same items in the same order, with \<^verbatim>\<open>cmdline\<close>,
  \<^verbatim>\<open>start_time\<close>, \<^verbatim>\<open>username\<close>, \<^verbatim>\<open>last_checked\<close> and \<^verbatim>\<open>gpu_info\<close> of every entry
  unchanged: both for the daemon's \<^verbatim>\<open>load_state\<close> into the empty dict it starts with and
  for the viewer's \<^verbatim>\<open>load_daemon_state\<close>.
\<close>

theorem save_then_load_is_identity:
  assumes "well_formed t" and "makedirs_ok io" and "open_ok io" and "dump_ok io"
  shows "\<exists>fs'. save_state io t p fs = (None, fs') \<and> load_state py fs' p [] = t \<and>
               load_daemon_state py fs' p = t"
  using assms
  by (simp add: save_state_all_ok load_state_def load_daemon_state_def try_load_saved)

theorem save_then_load_is_identity_witness:
  "\<exists>fs'. save_state all_ok [(100, sample_entry), (7, sample_entry)]
            ''/var/lib/ml-monitor/state.json'' sample_disk = (None, fs') \<and>
      load_state strict_python fs' ''/var/lib/ml-monitor/state.json'' [] =
        [(100, sample_entry), (7, sample_entry)] \<and>
      load_daemon_state strict_python fs' ''/var/lib/ml-monitor/state.json'' =
        [(100, sample_entry), (7, sample_entry)]"
  using save_then_load_is_identity[of "[(100, sample_entry), (7, sample_entry)]" all_ok
      "''/var/lib/ml-monitor/state.json''" sample_disk strict_python]
  by (simp add: well_formed_def timestamps_valid_def valid_datetime_def days_in_month_def
      is_leap_def sample_entry_def sample_start_def sample_later_def all_ok_def)

section \<open>The loop over the snapshot\<close>

lemma find_step_keys_grow: "fst ` set new \<subseteq> fst ` set (find_step env t p new)"
  by (auto simp: find_step_def dom_update split: option.splits)

lemma find_loop_keys_grow: "fst ` set new \<subseteq> fst ` set (find_loop env t ps new)"
proof (induction ps arbitrary: new)
  case Nil
  then show ?case by simp
next
  case (Cons p ps)
  from find_step_keys_grow[of new env t p] Cons.IH[of "find_step env t p new"]
  show ?case by auto
qed

lemma find_step_keys:
  "fst ` set (find_step env t p new) \<subseteq> fst ` set new \<union> {info_pid p}"
  by (auto simp: find_step_def dom_update split: option.splits if_splits)

lemma find_loop_keys:
  "fst ` set (find_loop env t ps new) \<subseteq> fst ` set new \<union> info_pid ` set ps"
proof (induction ps arbitrary: new)
  case Nil
  then show ?case by simp
next
  case (Cons p ps)
  from find_step_keys[of env t p new] Cons.IH[of "find_step env t p new"]
  show ?case by simp blast
qed

lemma find_step_distinct:
  "distinct (map fst new) \<Longrightarrow> distinct (map fst (find_step env t p new))"
  by (simp add: find_step_def distinct_update split: option.splits)

lemma find_loop_distinct:
  "distinct (map fst new) \<Longrightarrow> distinct (map fst (find_loop env t ps new))"
  by (induction ps arbitrary: new) (simp_all add: find_step_distinct)

lemma find_step_tracked:
  "map_of t pid = Some e \<Longrightarrow> map_of new pid = None \<or> map_of new pid = Some e \<Longrightarrow>
   map_of (find_step env t p new) pid = None \<or> map_of (find_step env t p new) pid = Some e"
  by (cases "info_pid p = pid") (auto simp: find_step_def update_conv' split: option.splits)

lemma find_loop_tracked:
  "map_of t pid = Some e \<Longrightarrow> map_of new pid = None \<or> map_of new pid = Some e \<Longrightarrow>
   map_of (find_loop env t ps new) pid = None \<or> map_of (find_loop env t ps new) pid = Some e"
proof (induction ps arbitrary: new)
  case Nil
  then show ?case by simp
next
  case (Cons p ps)
  from Cons.IH[OF Cons.prems(1) find_step_tracked[OF Cons.prems, of env p]]
  show ?case by simp
qed

lemma find_step_skips_child:
  "map_of t cand = None \<Longrightarrow> cand \<notin> fst ` set new \<Longrightarrow>
   info_pid p \<noteq> cand \<or> parent_is_python env p \<Longrightarrow>
   cand \<notin> fst ` set (find_step env t p new)"
  by (auto simp: find_step_def dom_update split: option.splits if_splits)

lemma find_loop_skips_children:
  "map_of t cand = None \<Longrightarrow> cand \<notin> fst ` set new \<Longrightarrow>
   list_all (\<lambda>p. info_pid p \<noteq> cand \<or> parent_is_python env p) ps \<Longrightarrow>
   cand \<notin> fst ` set (find_loop env t ps new)"
proof (induction ps arbitrary: new)
  case Nil
  then show ?case by simp
next
  case (Cons p ps)
  have here: "info_pid p \<noteq> cand \<or> parent_is_python env p"
    and rest: "list_all (\<lambda>p. info_pid p \<noteq> cand \<or> parent_is_python env p) ps"
    using Cons.prems(3) by simp_all
  from Cons.IH[OF Cons.prems(1) find_step_skips_child[OF Cons.prems(1,2) here] rest]
  show ?case by simp
qed

lemma find_step_accepts:
  "is_python p \<Longrightarrow> map_of t (info_pid p) = None \<Longrightarrow> info_pid p \<noteq> getpid env \<Longrightarrow>
   \<not> parent_is_python env p \<Longrightarrow> info_pid p \<in> fst ` set (find_step env t p new)"
  by (simp add: find_step_def dom_update)

lemma find_loop_accepts:
  "p \<in> set ps \<Longrightarrow> is_python p \<Longrightarrow> map_of t (info_pid p) = None \<Longrightarrow>
   info_pid p \<noteq> getpid env \<Longrightarrow> \<not> parent_is_python env p \<Longrightarrow>
   info_pid p \<in> fst ` set (find_loop env t ps new)"
proof (induction ps arbitrary: new)
  case Nil
  then show ?case by simp
next
  case (Cons q ps)
  show ?case
  proof (cases "q = p")
    case True
    have "info_pid p \<in> fst ` set (find_step env t p new)"
      using Cons.prems by (simp add: find_step_accepts)
    then show ?thesis
      using True find_loop_keys_grow[of "find_step env t p new" env t ps] by auto
  next
    case False
    then have "p \<in> set ps" using Cons.prems(1) by simp
    from Cons.IH[OF this Cons.prems(2-5)] show ?thesis by simp
  qed
qed

lemma find_step_created:
  "map_of t pid = None \<Longrightarrow> map_of (find_step env t p new) pid = Some e \<Longrightarrow>
   map_of new pid = Some e \<or> (info_pid p = pid \<and> e = new_entry env p)"
  by (cases "info_pid p = pid")
     (auto simp: find_step_def update_conv' split: option.splits if_splits)

lemma find_loop_created:
  "map_of t pid = None \<Longrightarrow> map_of (find_loop env t ps new) pid = Some e \<Longrightarrow>
   map_of new pid = Some e \<or> (\<exists>p\<in>set ps. info_pid p = pid \<and> e = new_entry env p)"
proof (induction ps arbitrary: new)
  case Nil
  then show ?case by simp
next
  case (Cons p ps)
  have "map_of (find_loop env t ps (find_step env t p new)) pid = Some e"
    using Cons.prems(2) by simp
  from Cons.IH[OF Cons.prems(1) this] find_step_created[OF Cons.prems(1), of env p new e]
  show ?case by auto
qed

section \<open>One iteration of the polling loop\<close>

lemma check_each_keys: "map fst (fst (check_each env t)) = map fst t"
  by (induction t) (auto split: prod.splits)

lemma check_each_map_of:
  "map_of (fst (check_each env t)) pid =
     map_option (\<lambda>info. if process_found env pid then refresh env pid info else info)
       (map_of t pid)"
  by (induction t) (auto split: prod.splits)

lemma check_each_terminated:
  "snd (snd (check_each env t)) = filter (\<lambda>pid. \<not> process_found env pid) (map fst t)"
  by (induction t) (auto split: prod.splits)

lemma check_each_sent:
  "map subject_pid (fst (snd (check_each env t))) =
     filter (\<lambda>pid. \<not> process_found env pid) (map fst t)"
  by (induction t) (auto split: prod.splits)

lemma map_of_fold_delete:
  "map_of (fold AList.delete ks t) k = (if k \<in> set ks then None else map_of t k)"
  by (induction ks arbitrary: t) (auto simp: delete_conv')

lemma keys_fold_delete: "fst ` set (fold AList.delete ks t) = fst ` set t - set ks"
proof -
  have "dom (map_of (fold AList.delete ks t)) = dom (map_of t) - set ks"
    by (auto simp: map_of_fold_delete dom_def)
  then show ?thesis by (simp add: dom_map_of_conv_image_fst)
qed

lemma check_process_status_map_of:
  "map_of (fst (check_process_status env t)) pid =
     (if process_found env pid then map_option (refresh env pid) (map_of t pid) else None)"
proof -
  obtain t' sent gone where c: "check_each env t = (t', sent, gone)"
    by (cases "check_each env t") auto
  have t': "map_of t' pid =
      map_option (\<lambda>info. if process_found env pid then refresh env pid info else info) (map_of t pid)"
    using check_each_map_of[of env t pid] c by simp
  have gone: "gone = filter (\<lambda>pid. \<not> process_found env pid) (map fst t)"
    using check_each_terminated[of env t] c by simp
  show ?thesis
  proof (cases "process_found env pid")
    case True
    then show ?thesis using c t' gone
      by (simp add: check_process_status_def map_of_fold_delete cong: map_option_cong)
  next
    case False
    show ?thesis
    proof (cases "map_of t pid")
      case None
      then show ?thesis using c t' False
        by (simp add: check_process_status_def map_of_fold_delete)
    next
      case (Some info)
      then have "pid \<in> fst ` set t" by (meson domI domIff map_of_eq_None_iff)
      then have "pid \<in> set gone" using gone False by auto
      then show ?thesis using c False
        by (simp add: check_process_status_def map_of_fold_delete)
    qed
  qed
qed

lemma check_process_status_keys:
  "fst ` set (fst (check_process_status env t)) = {pid \<in> fst ` set t. process_found env pid}"
proof -
  obtain t' sent gone where c: "check_each env t = (t', sent, gone)"
    by (cases "check_each env t") auto
  have "fst ` set t' = fst ` set t"
    using check_each_keys[of env t] c by (metis fst_conv set_map)
  moreover have "gone = filter (\<lambda>pid. \<not> process_found env pid) (map fst t)"
    using check_each_terminated[of env t] c by simp
  ultimately show ?thesis using c
    by (auto simp: check_process_status_def keys_fold_delete)
qed

lemma check_process_status_sent:
  "map subject_pid (snd (check_process_status env t)) =
     filter (\<lambda>pid. \<not> process_found env pid) (map fst t)"
  using check_each_sent[of env t]
  by (cases "check_each env t") (simp add: check_process_status_def)

lemma poll_cycle_tracked:
  "tracked_processes (snd (poll_cycle sf env d)) =
     fst (check_process_status env (find_python_processes env (tracked_processes d)))"
  by (simp add: poll_cycle_def Let_def split: prod.splits sum.splits)

lemma poll_cycle_outbox:
  "outbox (snd (poll_cycle sf env d)) =
     outbox d @ snd (check_process_status env (find_python_processes env (tracked_processes d)))"
  by (simp add: poll_cycle_def Let_def split: prod.splits sum.splits)

lemma poll_cycle_exception:
  "fst (poll_cycle sf env d) = (if makedirs_ok (save_calls env) then None else Some OSError)"
  by (simp add: poll_cycle_def save_state_def Let_def split: prod.splits)

lemma poll_cycle_keeps_entry:
  assumes "map_of (tracked_processes d) pid = Some e"
    and "map_of (tracked_processes (snd (poll_cycle sf env d))) pid = Some e'"
  shows "e' = refresh env pid e"
proof -
  let ?new = "find_python_processes env (tracked_processes d)"
  have found: "process_found env pid" and "map_option (refresh env pid) (map_of ?new pid) = Some e'"
    using assms(2) by (simp_all add: poll_cycle_tracked check_process_status_map_of split: if_splits)
  then obtain x where x: "map_of ?new pid = Some x" and e': "e' = refresh env pid x" by auto
  have "map_of ?new pid = None \<or> map_of ?new pid = Some e"
    unfolding find_python_processes_def
    by (rule find_loop_tracked[OF assms(1)]) simp
  then show ?thesis using x e' by simp
qed

lemma poll_history_head: "\<exists>rest. poll_history sf envs d = d # rest"
  by (cases envs) simp_all

lemma refresh_twice:
  "(refresh env pid e)\<lparr>last_checked := a, gpu_info := b\<rparr> = e\<lparr>last_checked := a, gpu_info := b\<rparr>"
  by (simp add: refresh_def)

text \<open>
  C4 (identity continuity). Take any start of the polling loop and any number of
  consecutive iterations, and a pid that is in the tracked set at the start and after each
  of these iterations. Then the entry of the pid at each of these points differs from the
  entry at the start in \<^verbatim>\<open>last_checked\<close> and \<^verbatim>\<open>gpu_info\<close> at most: \<^verbatim>\<open>cmdline\<close>,
  \<^verbatim>\<open>start_time\<close> and \<^verbatim>\<open>username\<close> are the same.
\<close>

theorem identity_continuity:
  assumes "list_all (\<lambda>s. map_of (tracked_processes s) pid \<noteq> None) (poll_history sf envs d)"
    and "s \<in> set (poll_history sf envs d)"
    and "map_of (tracked_processes d) pid = Some e"
    and "map_of (tracked_processes s) pid = Some e'"
  shows "e' = e\<lparr>last_checked := last_checked e', gpu_info := gpu_info e'\<rparr> \<and>
         cmdline e' = cmdline e \<and> start_time e' = start_time e \<and> username e' = username e"
  using assms
proof (induction envs arbitrary: d e)
  case Nil
  then show ?case by simp
next
  case (Cons env envs)
  show ?case
  proof (cases "s = d")
    case True
    then show ?thesis using Cons.prems(3,4) by simp
  next
    case False
    obtain r d' where cyc: "poll_cycle sf env d = (r, d')" by (cases "poll_cycle sf env d")
    have run: "\<not> stop_is_set env" using False Cons.prems(2) by (auto split: if_splits)
    have present: "map_of (tracked_processes d') pid \<noteq> None"
    proof (cases r)
      case None
      obtain rest where "poll_history sf envs d' = d' # rest"
        using poll_history_head by blast
      then show ?thesis using Cons.prems(1) run cyc None by simp
    next
      case (Some x)
      then show ?thesis using Cons.prems(1) run cyc by simp
    qed
    then obtain e1 where e1: "map_of (tracked_processes d') pid = Some e1" by auto
    have e1_eq: "e1 = refresh env pid e"
      using poll_cycle_keeps_entry[OF Cons.prems(3), of sf env e1] e1 cyc by simp
    have goal_from_e1: "e'' = e1\<lparr>last_checked := last_checked e'', gpu_info := gpu_info e''\<rparr> \<and>
         cmdline e'' = cmdline e1 \<and> start_time e'' = start_time e1 \<and> username e'' = username e1
       \<Longrightarrow> e'' = e\<lparr>last_checked := last_checked e'', gpu_info := gpu_info e''\<rparr> \<and>
         cmdline e'' = cmdline e \<and> start_time e'' = start_time e \<and> username e'' = username e" for e''
      unfolding e1_eq by (simp add: refresh_twice) (simp add: refresh_def)
    show ?thesis
    proof (cases r)
      case (Some x)
      then have "s = d'" using False Cons.prems(2) run cyc by simp
      then have "e' = e1" using e1 Cons.prems(4) by simp
      then show ?thesis using goal_from_e1[of e'] by simp
    next
      case None
      then have in_rest: "s \<in> set (poll_history sf envs d')"
        using False Cons.prems(2) run cyc by simp
      have all_rest: "list_all (\<lambda>s. map_of (tracked_processes s) pid \<noteq> None) (poll_history sf envs d')"
        using Cons.prems(1) run cyc None by simp
      from Cons.IH[OF all_rest in_rest e1 Cons.prems(4)] show ?thesis
        using goal_from_e1[of e'] by simp
    qed
  qed
qed

lemmas cycle_defs = sample_poll_def python_proc_def poll_cycle_def find_python_processes_def
  find_step_def is_python_def parent_is_python_def new_entry_def check_process_status_def
  refresh_def get_gpu_info_for_process_def send_notification_def post_and_compare_def
  save_state_def save_state_writes_def after_makedirs_def all_ok_def new_daemon_def
  cmdline_text_def

theorem identity_continuity_witness:
  "map_of (tracked_processes
      (last (poll_history ''/var/lib/ml-monitor/state.json''
          [sample_poll [python_proc 100 (Some [''python'', ''train.py'']) (Inr 2)] (\<lambda>pid. True),
           sample_poll [python_proc 100 (Some [''python'', ''train.py'']) (Inr 2)] (\<lambda>pid. True)]
          \<lparr>tracked_processes = [(100, sample_entry)], outbox = [], disk = sample_disk\<rparr>))) 100 =
     Some (sample_entry\<lparr>last_checked := sample_later, gpu_info := JNull\<rparr>) \<and>
   cmdline (sample_entry\<lparr>last_checked := sample_later, gpu_info := JNull\<rparr>) = cmdline sample_entry \<and>
   start_time (sample_entry\<lparr>last_checked := sample_later, gpu_info := JNull\<rparr>) = start_time sample_entry \<and>
   username (sample_entry\<lparr>last_checked := sample_later, gpu_info := JNull\<rparr>) = username sample_entry"
proof -
  let ?E = "sample_poll [python_proc 100 (Some [''python'', ''train.py'']) (Inr 2)] (\<lambda>pid. True)"
  let ?d = "\<lparr>tracked_processes = [(100, sample_entry)], outbox = [], disk = sample_disk\<rparr>"
  let ?H = "poll_history ''/var/lib/ml-monitor/state.json'' [?E, ?E] ?d"
  let ?e = "sample_entry\<lparr>last_checked := sample_later, gpu_info := JNull\<rparr>"
  have h1: "list_all (\<lambda>s. map_of (tracked_processes s) 100 \<noteq> None) ?H"
    by (simp add: cycle_defs)
  have h2: "last ?H \<in> set ?H" by (simp add: cycle_defs)
  have h3: "map_of (tracked_processes ?d) 100 = Some sample_entry" by simp
  have h4: "map_of (tracked_processes (last ?H)) 100 = Some ?e" by (simp add: cycle_defs)
  from identity_continuity[OF h1 h2 h3 h4] h4 show ?thesis by simp
qed

section \<open>Which processes are taken into the tracked set\<close>

lemma same_pid_same_proc:
  "distinct (map info_pid ps) \<Longrightarrow> p \<in> set ps \<Longrightarrow> q \<in> set ps \<Longrightarrow>
   info_pid q = info_pid p \<Longrightarrow> q = p"
  by (meson distinct_map inj_on_def)

lemma poll_cycle_keys:
  "fst ` set (tracked_processes (snd (poll_cycle sf env d))) =
     {pid \<in> fst ` set (find_python_processes env (tracked_processes d)). process_found env pid}"
  by (simp add: poll_cycle_tracked check_process_status_keys)

text \<open>
  C6 (child exclusion). Take a process of the snapshot (in which every pid occurs once)
  that is not tracked yet. If its parent's name is \<^verbatim>\<open>python\<close> or \<^verbatim>\<open>python3\<close>, it is not in
  the result of \<^verbatim>\<open>find_python_processes\<close> and not in the tracked set after the iteration.
  If instead its parent cannot be inspected (\<^verbatim>\<open>proc.ppid()\<close>, or the lookup of the
  parent's name, raises a psutil error) and it is a Python process other than the daemon
  itself, it is in the result of \<^verbatim>\<open>find_python_processes\<close>, and it is in the tracked set
  after the iteration exactly when \<^verbatim>\<open>check_process_status\<close> still finds it.
\<close>

theorem child_exclusion:
  assumes "distinct (map info_pid (process_iter env))"
    and "p \<in> set (process_iter env)"
    and "map_of (tracked_processes d) (info_pid p) = None"
  shows "(ppid p = Inr parent \<and>
          (process_name env parent = Inr ''python'' \<or> process_name env parent = Inr ''python3'')
          \<longrightarrow> info_pid p \<notin> fst ` set (find_python_processes env (tracked_processes d)) \<and>
              info_pid p \<notin> fst ` set (tracked_processes (snd (poll_cycle sf env d)))) \<and>
         (is_python p \<and> info_pid p \<noteq> getpid env \<and>
          (ppid p = Inl err \<or> (ppid p = Inr parent \<and> process_name env parent = Inl err))
          \<longrightarrow> info_pid p \<in> fst ` set (find_python_processes env (tracked_processes d)) \<and>
              (info_pid p \<in> fst ` set (tracked_processes (snd (poll_cycle sf env d)))) =
                process_found env (info_pid p))"
proof (intro conjI impI)
  assume a: "ppid p = Inr parent \<and>
     (process_name env parent = Inr ''python'' \<or> process_name env parent = Inr ''python3'')"
  then have par: "parent_is_python env p" by (auto simp: parent_is_python_def)
  have "list_all (\<lambda>q. info_pid q \<noteq> info_pid p \<or> parent_is_python env q) (process_iter env)"
    unfolding list_all_iff using same_pid_same_proc[OF assms(1,2)] par by blast
  from find_loop_skips_children[OF assms(3) _ this, of "[]"]
  show out: "info_pid p \<notin> fst ` set (find_python_processes env (tracked_processes d))"
    by (simp add: find_python_processes_def)
  then show "info_pid p \<notin> fst ` set (tracked_processes (snd (poll_cycle sf env d)))"
    by (simp add: poll_cycle_keys)
next
  assume b: "is_python p \<and> info_pid p \<noteq> getpid env \<and>
     (ppid p = Inl err \<or> (ppid p = Inr parent \<and> process_name env parent = Inl err))"
  then have "\<not> parent_is_python env p" by (auto simp: parent_is_python_def)
  with b find_loop_accepts[OF assms(2) _ assms(3), of env "[]"]
  show inn: "info_pid p \<in> fst ` set (find_python_processes env (tracked_processes d))"
    by (simp add: find_python_processes_def)
  then show "(info_pid p \<in> fst ` set (tracked_processes (snd (poll_cycle sf env d)))) =
      process_found env (info_pid p)"
    by (simp add: poll_cycle_keys)
qed

theorem child_exclusion_witness:
  "200 \<notin> fst ` set (tracked_processes (snd (poll_cycle ''/var/lib/ml-monitor/state.json''
      (sample_poll [python_proc 100 (Some [''python'', ''train.py'']) (Inr 2),
                    python_proc 200 (Some [''python'', ''worker.py'']) (Inr 100),
                    python_proc 300 (Some [''python'', ''eval.py'']) (Inl AccessDenied),
                    python_proc 400 (Some [''python'', ''plot.py'']) (Inr 5)] (\<lambda>pid. True))
      (new_daemon sample_disk)))) \<and>
   300 \<in> fst ` set (tracked_processes (snd (poll_cycle ''/var/lib/ml-monitor/state.json''
      (sample_poll [python_proc 100 (Some [''python'', ''train.py'']) (Inr 2),
                    python_proc 200 (Some [''python'', ''worker.py'']) (Inr 100),
                    python_proc 300 (Some [''python'', ''eval.py'']) (Inl AccessDenied),
                    python_proc 400 (Some [''python'', ''plot.py'']) (Inr 5)] (\<lambda>pid. True))
      (new_daemon sample_disk)))) \<and>
   400 \<in> fst ` set (tracked_processes (snd (poll_cycle ''/var/lib/ml-monitor/state.json''
      (sample_poll [python_proc 100 (Some [''python'', ''train.py'']) (Inr 2),
                    python_proc 200 (Some [''python'', ''worker.py'']) (Inr 100),
                    python_proc 300 (Some [''python'', ''eval.py'']) (Inl AccessDenied),
                    python_proc 400 (Some [''python'', ''plot.py'']) (Inr 5)] (\<lambda>pid. True))
      (new_daemon sample_disk))))"
proof -
  let ?p2 = "python_proc 200 (Some [''python'', ''worker.py'']) (Inr 100)"
  let ?p3 = "python_proc 300 (Some [''python'', ''eval.py'']) (Inl AccessDenied)"
  let ?p4 = "python_proc 400 (Some [''python'', ''plot.py'']) (Inr 5)"
  let ?E = "sample_poll [python_proc 100 (Some [''python'', ''train.py'']) (Inr 2), ?p2, ?p3, ?p4]
              (\<lambda>pid. True)"
  let ?d = "new_daemon sample_disk"
  have dist: "distinct (map info_pid (process_iter ?E))"
    by (simp add: sample_poll_def python_proc_def)
  have none: "map_of (tracked_processes ?d) (info_pid q) = None" for q
    by (simp add: new_daemon_def)
  have in2: "?p2 \<in> set (process_iter ?E)" and in3: "?p3 \<in> set (process_iter ?E)"
    and in4: "?p4 \<in> set (process_iter ?E)"
    by (simp_all add: sample_poll_def)
  from child_exclusion[OF dist in2 none, of 100 "''/var/lib/ml-monitor/state.json''" AccessDenied]
       child_exclusion[OF dist in3 none, of 0 "''/var/lib/ml-monitor/state.json''" AccessDenied]
       child_exclusion[OF dist in4 none, of 5 "''/var/lib/ml-monitor/state.json''" NoSuchProcess]
  show ?thesis
    by (simp add: sample_poll_def python_proc_def is_python_def)
qed

section \<open>The stored command line\<close>

text \<open>
  The second half of C9 as stated fails: a Python process whose argument list is the
  one-element list \<^verbatim>\<open>['']\<close> is tracked with the empty string as its command line (the
  list is not empty, so line 51 joins it).
\<close>

theorem empty_cmdline_example:
  "map (\<lambda>(pid, info). cmdline info)
     (find_python_processes (sample_poll [python_proc 300 (Some ['''']) (Inr 2)] (\<lambda>pid. True)) []) =
   [JStr '''']"
  by (simp add: cycle_defs)

text \<open>
  C9 (amended). For a process of the snapshot (in which every pid occurs once) that was
  not tracked before and is tracked after \<^verbatim>\<open>find_python_processes\<close>: the stored command
  line is the string \<^verbatim>\<open>Unknown\<close> when the snapshot's argument list is absent or empty, and
  the arguments joined by single spaces otherwise.
\<close>

theorem new_entry_cmdline:
  assumes "distinct (map info_pid (process_iter env))"
    and "p \<in> set (process_iter env)"
    and "map_of t (info_pid p) = None"
    and "map_of (find_python_processes env t) (info_pid p) = Some e"
  shows "(info_cmdline p = None \<or> info_cmdline p = Some [] \<longrightarrow> cmdline e = JStr ''Unknown'') \<and>
         (\<forall>args. info_cmdline p = Some args \<and> args \<noteq> [] \<longrightarrow>
                 cmdline e = JStr (py_join '' '' args))"
proof -
  obtain q where q: "q \<in> set (process_iter env)" "info_pid q = info_pid p" "e = new_entry env q"
    using find_loop_created[OF assms(3), of env "process_iter env" "[]" e] assms(4)
    by (auto simp: find_python_processes_def)
  then have "q = p" using same_pid_same_proc[OF assms(1,2)] by simp
  then have "cmdline e = JStr (cmdline_text (info_cmdline p))"
    using q(3) by (simp add: new_entry_def)
  then show ?thesis by (auto simp: cmdline_text_def)
qed

theorem new_entry_cmdline_witness:
  "cmdline \<lparr>cmdline = JStr ''Unknown'', start_time = sample_start, username = JStr ''al'',
            last_checked = sample_later, gpu_info = JNull\<rparr> = JStr ''Unknown'' \<and>
   map_of (find_python_processes
       (sample_poll [python_proc 300 (Some []) (Inr 2), python_proc 301 (Some [''python'', ''a.py'']) (Inr 2)] (\<lambda>pid. True)) []) 301
     = Some \<lparr>cmdline = JStr ''python a.py'', start_time = sample_start, username = JStr ''al'',
            last_checked = sample_later, gpu_info = JNull\<rparr>"
proof -
  let ?p0 = "python_proc 300 (Some []) (Inr 2)"
  let ?p1 = "python_proc 301 (Some [''python'', ''a.py'']) (Inr 2)"
  let ?E = "sample_poll [?p0, ?p1] (\<lambda>pid. True)"
  let ?e0 = "\<lparr>cmdline = JStr ''Unknown'', start_time = sample_start, username = JStr ''al'',
            last_checked = sample_later, gpu_info = JNull\<rparr>"
  have dist: "distinct (map info_pid (process_iter ?E))"
    by (simp add: sample_poll_def python_proc_def)
  have in0: "?p0 \<in> set (process_iter ?E)" and in1: "?p1 \<in> set (process_iter ?E)"
    by (simp_all add: sample_poll_def)
  have none: "map_of ([] :: tracked) (info_pid q) = None" for q by simp
  have r0: "map_of (find_python_processes ?E []) (info_pid ?p0) = Some ?e0"
    by (simp add: cycle_defs)
  have r1: "map_of (find_python_processes ?E []) 301 = Some \<lparr>cmdline = JStr ''python a.py'', start_time = sample_start, username = JStr ''al'',
            last_checked = sample_later, gpu_info = JNull\<rparr>"
    by (simp add: cycle_defs)
  from new_entry_cmdline[OF dist in0 none r0] r1 show ?thesis
    by (simp add: python_proc_def)
qed

section \<open>Processes that have ended\<close>

text \<open>
  A pid that the snapshot does not list is not in \<^verbatim>\<open>new_processes\<close>, which becomes the
  tracked set before \<^verbatim>\<open>check_process_status\<close> runs: the iteration sends no notification
  about it, and it is not tracked afterwards.
\<close>

lemma vanished_pid_dropped_without_notification:
  assumes "pid \<notin> info_pid ` set (process_iter env)"
  shows "\<exists>sent. outbox (snd (poll_cycle sf env d)) = outbox d @ sent \<and>
                pid \<notin> subject_pid ` set sent \<and>
                map_of (tracked_processes (snd (poll_cycle sf env d))) pid = None"
proof -
  let ?new = "find_python_processes env (tracked_processes d)"
  have keys: "pid \<notin> fst ` set ?new"
    using find_loop_keys[of env "tracked_processes d" "process_iter env" "[]"] assms
    by (auto simp: find_python_processes_def)
  have "set (map subject_pid (snd (check_process_status env ?new))) \<subseteq> fst ` set ?new"
    by (auto simp: check_process_status_sent)
  then have "pid \<notin> subject_pid ` set (snd (check_process_status env ?new))"
    using keys by auto
  moreover have "map_of (fst (check_process_status env ?new)) pid = None"
    using keys check_process_status_keys[of env ?new]
    by (metis (no_types, lifting) map_of_eq_None_iff mem_Collect_eq)
  ultimately show ?thesis by (simp add: poll_cycle_outbox poll_cycle_tracked)
qed

text \<open>
  The one case in which a notification is sent: the snapshot still lists the pid, so it is
  in \<^verbatim>\<open>new_processes\<close>, but \<^verbatim>\<open>psutil.Process(pid)\<close> in \<^verbatim>\<open>check_process_status\<close> no
  longer finds it. Then the iteration sends exactly one notification about it and removes
  its entry.
\<close>

lemma distinct_count_one:
  "distinct xs \<Longrightarrow> x \<in> set xs \<Longrightarrow> length (filter (\<lambda>y. y = x) xs) = 1"
proof (induction xs)
  case Nil
  then show ?case by simp
next
  case (Cons a xs)
  show ?case
  proof (cases "a = x")
    case True
    then have "x \<notin> set xs" using Cons.prems(1) by simp
    then have "filter (\<lambda>y. y = x) xs = []" by (auto simp: filter_empty_conv)
    then show ?thesis using True by simp
  next
    case False
    then show ?thesis using Cons by simp
  qed
qed

lemma filter_implied:
  "(\<And>x. P x \<Longrightarrow> Q x) \<Longrightarrow> filter P (filter Q xs) = filter P xs"
  by (induction xs) auto

lemma ended_between_passes_notified_once:
  assumes "pid \<in> fst ` set (find_python_processes env (tracked_processes d))"
    and "\<not> process_found env pid"
  shows "\<exists>sent. outbox (snd (poll_cycle sf env d)) = outbox d @ sent \<and>
                length (filter (\<lambda>n. subject_pid n = pid) sent) = 1 \<and>
                map_of (tracked_processes (snd (poll_cycle sf env d))) pid = None"
proof -
  let ?new = "find_python_processes env (tracked_processes d)"
  let ?sent = "snd (check_process_status env ?new)"
  have dist: "distinct (map fst ?new)"
    by (simp add: find_python_processes_def find_loop_distinct)
  have "length (filter (\<lambda>n. subject_pid n = pid) ?sent) =
        length (filter (\<lambda>x. x = pid) (map subject_pid ?sent))"
    by (simp add: filter_map comp_def)
  also have "\<dots> = length (filter (\<lambda>x. x = pid) (map fst ?new))"
  proof -
    have "filter (\<lambda>x. x = pid) (filter (\<lambda>x. \<not> process_found env x) (map fst ?new)) =
          filter (\<lambda>x. x = pid) (map fst ?new)"
      by (rule filter_implied) (simp add: assms(2))
    then show ?thesis by (simp only: check_process_status_sent)
  qed
  also have "\<dots> = 1"
    using distinct_count_one[OF dist, of pid] assms(1) by simp
  finally have one: "length (filter (\<lambda>n. subject_pid n = pid) ?sent) = 1" .
  have "map_of (fst (check_process_status env ?new)) pid = None"
    using assms(2) by (simp add: check_process_status_map_of)
  with one show ?thesis by (simp add: poll_cycle_outbox poll_cycle_tracked)
qed

text \<open>
  C1, evaluated where the code departs from it. Pid 100 is tracked and the next snapshot
  does not list it: the iteration ends without an exception, the tracked set is empty, and
  no notification was sent (the claim asks for exactly one).
\<close>

theorem vanished_process_is_not_notified:
  "poll_cycle ''/var/lib/ml-monitor/state.json'' (sample_poll [] (\<lambda>pid. False))
     \<lparr>tracked_processes = [(100, sample_entry)], outbox = [], disk = sample_disk\<rparr> =
   (None, \<lparr>tracked_processes = [], outbox = [],
           disk = sample_disk(''/var/lib/ml-monitor/state.json'' \<mapsto> JsonText (JObj []))\<rparr>)"
  by (simp add: cycle_defs serializable_state_def)

section \<open>Failures inside the polling loop\<close>

text \<open>
  As long as \<^verbatim>\<open>os.makedirs\<close> succeeds and the stop event is not set, the loop goes on,
  whatever the notification transport, nvidia-smi, \<^verbatim>\<open>open\<close> and \<^verbatim>\<open>json.dump\<close> do; and
  every iteration whose file-system calls succeed leaves the current tracked set in the
  state file, whatever happened to the saves before it.
\<close>

lemma polling_survives_handled_failures:
  "list_all (\<lambda>env. \<not> stop_is_set env \<and> makedirs_ok (save_calls env)) envs \<Longrightarrow>
   fst (polling_loop sf envs d) = StillPolling"
proof (induction envs arbitrary: d)
  case Nil
  then show ?case by simp
next
  case (Cons env envs)
  obtain r d' where c: "poll_cycle sf env d = (r, d')" by (cases "poll_cycle sf env d")
  have "r = None" using poll_cycle_exception[of sf env d] c Cons.prems by simp
  then show ?case using Cons c by simp
qed

lemma every_cycle_saves_again:
  assumes "makedirs_ok (save_calls env)" "open_ok (save_calls env)" "dump_ok (save_calls env)"
  shows "disk (snd (poll_cycle sf env d)) sf =
     Some (JsonText (JObj (serializable_state (tracked_processes (snd (poll_cycle sf env d))))))"
  using assms
  by (simp add: poll_cycle_def save_state_def save_state_writes_def Let_def split: prod.splits)

text \<open>
  C5, evaluated where the code departs from it. The state directory has gone, and in the
  first of two iterations \<^verbatim>\<open>os.makedirs\<close> raises inside \<^verbatim>\<open>save_state\<close>; from then on it
  would make the directory and everything else works. The loop is left with that exception
  and the second iteration never runs: \<^verbatim>\<open>run\<close> makes its last save and returns.
\<close>

theorem makedirs_failure_ends_polling:
  "fst (polling_loop ''/var/lib/ml-monitor/state.json''
         [(sample_poll [] (\<lambda>pid. True))\<lparr>save_calls := makedirs_refused\<rparr>,
          (sample_poll [] (\<lambda>pid. True))\<lparr>save_calls := makedirs_remade\<rparr>]
         (new_daemon disk_without_directory)) = LoopError OSError \<and>
   fst (snd (run strict_python ''/var/lib/ml-monitor/state.json''
         [(sample_poll [] (\<lambda>pid. True))\<lparr>save_calls := makedirs_refused\<rparr>,
          (sample_poll [] (\<lambda>pid. True))\<lparr>save_calls := makedirs_remade\<rparr>]
         makedirs_remade (new_daemon disk_without_directory))) = LoopError OSError"
  by (simp add: cycle_defs run_def load_state_def makedirs_refused_def makedirs_remade_def
      disk_without_directory_def)

section \<open>The result of sending a notification\<close>

text \<open>
  C10. \<^verbatim>\<open>send_notification\<close> returns \<^verbatim>\<open>True\<close> exactly when \<^verbatim>\<open>requests.post\<close> returned a
  response whose status code is 200. When the post raised, and for every other status
  code, it returns \<^verbatim>\<open>False\<close>; it always returns a boolean, so no exception reaches the
  caller.
\<close>

theorem send_notification_true_iff_200:
  "(send_notification r = (\<exists>text. r = Response 200 text)) \<and>
   (\<forall>e. send_notification (PostRaised e) = False) \<and>
   (\<forall>code text. send_notification (Response code text) = (code = 200))"
  by (cases r) (simp_all add: send_notification_def post_and_compare_def)

section \<open>How the state file is written\<close>

text \<open>
  C2 as stated fails: saving over an existing state file passes through a state in which
  the destination itself holds incomplete text, before it holds the new document.
\<close>

theorem save_truncates_destination_example:
  "map (\<lambda>fs. fs ''/var/lib/ml-monitor/state.json'')
     (save_state_writes all_ok [] ''/var/lib/ml-monitor/state.json''
        (sample_disk(''/var/lib/ml-monitor/state.json'' \<mapsto> JsonText (JObj [])))) =
   [Some Incomplete, Some (JsonText (JObj []))]"
  by (simp add: save_state_writes_def all_ok_def serializable_state_def)

text \<open>
  C2 (amended). \<^verbatim>\<open>save_state\<close> writes the serialized snapshot into the destination
  itself. While the call runs, the destination holds: nothing new when \<^verbatim>\<open>open\<close> fails;
  otherwise first incomplete text (opening truncates the file), which a concurrent reader
  can find there, and then, unless the writing fails, the complete document. When all
  file-system calls succeed, the call returns normally and leaves the complete document at
  the destination.
\<close>

theorem save_writes_in_place:
  "map (\<lambda>fs'. fs' p) (save_state_writes io t p fs) =
     (if \<not> open_ok io then []
      else if \<not> dump_ok io then [Some Incomplete]
      else [Some Incomplete, Some (JsonText (JObj (serializable_state t)))]) \<and>
   (makedirs_ok io \<and> open_ok io \<and> dump_ok io \<longrightarrow>
      fst (save_state io t p fs) = None \<and>
      snd (save_state io t p fs) p = Some (JsonText (JObj (serializable_state t))))"
  by (simp add: save_state_writes_def save_state_def Let_def)

theorem save_writes_in_place_witness:
  "map (\<lambda>fs'. fs' ''/var/lib/ml-monitor/state.json'')
     (save_state_writes all_ok [(100, sample_entry)] ''/var/lib/ml-monitor/state.json''
        (sample_disk(''/var/lib/ml-monitor/state.json'' \<mapsto> JsonText (JObj [])))) =
     [Some Incomplete, Some (JsonText (JObj (serializable_state [(100, sample_entry)])))] \<and>
   fst (save_state all_ok [(100, sample_entry)] ''/var/lib/ml-monitor/state.json''
        (sample_disk(''/var/lib/ml-monitor/state.json'' \<mapsto> JsonText (JObj [])))) = None \<and>
   snd (save_state all_ok [(100, sample_entry)] ''/var/lib/ml-monitor/state.json''
        (sample_disk(''/var/lib/ml-monitor/state.json'' \<mapsto> JsonText (JObj []))))
     ''/var/lib/ml-monitor/state.json'' =
     Some (JsonText (JObj (serializable_state [(100, sample_entry)])))"
  using save_writes_in_place[where p = "''/var/lib/ml-monitor/state.json''"
      and t = "[(100, sample_entry)]" and io = all_ok
      and fs = "sample_disk(''/var/lib/ml-monitor/state.json'' \<mapsto> JsonText (JObj []))"]
  by (simp add: all_ok_def)

section \<open>Loading when the state file is missing or broken\<close>

text \<open>
  C8. When the state file does not exist, the daemon's \<^verbatim>\<open>load_state\<close> leaves the tracked
  set as it was, which is empty for the freshly made daemon \<^verbatim>\<open>run\<close> calls it on, and the
  viewer's \<^verbatim>\<open>load_daemon_state\<close> returns the empty dict. Neither raises: both return at
  the \<^verbatim>\<open>os.path.exists\<close> test.
\<close>

theorem missing_state_file_loads_nothing:
  assumes "fs p = None"
  shows "load_state py fs p t = t \<and>
         load_state py fs p (tracked_processes (new_daemon fs)) = [] \<and>
         load_daemon_state py fs p = []"
  using assms by (simp add: load_state_def load_daemon_state_def new_daemon_def)

theorem missing_state_file_loads_nothing_witness:
  "load_state strict_python sample_disk ''/var/lib/ml-monitor/state.json''
     [(100, sample_entry)] = [(100, sample_entry)] \<and>
   load_state strict_python sample_disk ''/var/lib/ml-monitor/state.json''
     (tracked_processes (new_daemon sample_disk)) = [] \<and>
   load_daemon_state strict_python sample_disk ''/var/lib/ml-monitor/state.json'' = []"
proof -
  have h: "sample_disk ''/var/lib/ml-monitor/state.json'' = None"
    by (simp add: sample_disk_def)
  from missing_state_file_loads_nothing[where fs = sample_disk
      and p = "''/var/lib/ml-monitor/state.json''" and py = strict_python
      and t = "[(100, sample_entry)]", OF h]
  show ?thesis by simp
qed

text \<open>
  C7 as stated fails: after a read that hits a decoding error the viewer shows nothing; the
  entries it showed before are not kept.
\<close>

theorem viewer_shows_nothing_after_failed_read_example:
  "ui_tracked_processes \<lparr>ui_state_file = ''/var/lib/ml-monitor/state.json'',
       ui_tracked_processes = [(100, sample_entry, None)], show_all = False\<rparr> =
     [(100, sample_entry, None)] \<and>
   update_process_list strict_python
     (sample_disk(''/var/lib/ml-monitor/state.json'' \<mapsto> Incomplete))
     (\<lambda>pid. Inl NoSuchProcess)
     \<lparr>ui_state_file = ''/var/lib/ml-monitor/state.json'',
       ui_tracked_processes = [(100, sample_entry, None)], show_all = False\<rparr> =
     (None, \<lparr>ui_state_file = ''/var/lib/ml-monitor/state.json'',
       ui_tracked_processes = [], show_all = False\<rparr>)"
  by (simp add: update_process_list_def load_daemon_state_def try_load_def json_load_def
      bind_exn_def)

text \<open>
  C7 (amended). When the state file exists and the \<^verbatim>\<open>try\<close> block of
  \<^verbatim>\<open>load_daemon_state\<close> raises under the interpreter at hand (the file cannot be opened or
  decoded, or an entry in it cannot be converted), \<^verbatim>\<open>update_process_list\<close> returns
  without an exception and the viewer's entry set is empty for that refresh.
\<close>

theorem viewer_shows_nothing_after_failed_read:
  assumes "fs (ui_state_file v) = Some f" and "fst (try_load py f []) = Some e"
  shows "update_process_list py fs psutil_answer v = (None, v\<lparr>ui_tracked_processes := []\<rparr>)"
  using assms
  by (cases "try_load py f []") (simp add: update_process_list_def load_daemon_state_def)

theorem viewer_shows_nothing_after_failed_read_witness:
  "update_process_list strict_python
     (sample_disk(''/var/lib/ml-monitor/state.json'' \<mapsto> Incomplete))
     (\<lambda>pid. Inl AccessDenied)
     \<lparr>ui_state_file = ''/var/lib/ml-monitor/state.json'',
       ui_tracked_processes = [(100, sample_entry, None)], show_all = True\<rparr> =
     (None, \<lparr>ui_state_file = ''/var/lib/ml-monitor/state.json'',
       ui_tracked_processes = [], show_all = True\<rparr>)"
proof -
  let ?v = "\<lparr>ui_state_file = ''/var/lib/ml-monitor/state.json'',
       ui_tracked_processes = [(100, sample_entry, None)], show_all = True\<rparr>"
  let ?fs = "sample_disk(''/var/lib/ml-monitor/state.json'' \<mapsto> Incomplete)"
  have h1: "?fs (ui_state_file ?v) = Some Incomplete" by simp
  have h2: "fst (try_load strict_python Incomplete []) = Some JSONDecodeError"
    by (simp add: try_load_def json_load_def bind_exn_def)
  from viewer_shows_nothing_after_failed_read[where fs = ?fs and v = ?v and f = Incomplete
      and e = JSONDecodeError and py = strict_python
      and psutil_answer = "\<lambda>pid. Inl AccessDenied", OF h1 h2]
  show ?thesis by simp
qed

end
